theory Spec2Isabelle
  imports
    Main
    "HOL-Library.Word"
    "HOL-Library.Char_ord"
    "HOL-Library.List_Lexorder"
    "HOL-Library.Product_Lexorder"
    "HOL-Library.AList"
begin

section \<open>Bytes, JSON values and errors\<close>

text \<open>
  A \<open>Buffer\<close> is a list of bytes. JSON values are a datatype; an object is the list of
  its entries in insertion order (a JavaScript object never holds a key twice, so the
  objects the code receives are the lists with distinct keys), and a number is an integer
  (nothing below depends on a fraction). A thrown exception is a value \<open>Inl e\<close> of the
  result type \<open>error + 'a\<close>.
\<close>

type_synonym byte = "8 word"
type_synonym Buffer = "byte list"

datatype json =
    JNull
  | JBool bool
  | JNumber int
  | JString string
  | JArray "json list"
  | JObject "(string \<times> json) list"

datatype error =
    Error string
  | TypeError string
  | RangeError string
  | UnexpectedEnd
  | UnknownField string

text \<open>
  An argument of a static \<open>from\<close> is either a value of the class already (represented
  by its bytes) or a JSON value.
\<close>

datatype from_arg = Instance Buffer | Json json

subsection \<open>JavaScript helpers: decimal strings, \<open>Object.keys\<close>, property access\<close>

function decimal :: "nat \<Rightarrow> string" where
  "decimal n =
     (if n < 10 then [char_of (48 + n)]
      else decimal (n div 10) @ [char_of (48 + n mod 10)])"
  by pat_completeness auto
termination
  by (relation "measure id") auto

declare decimal.simps [simp del]

text \<open>
  \<open>Object.keys\<close>: the own keys of an object; the indices of an array or of a string;
  nothing for a number or a boolean; a \<open>TypeError\<close> for \<open>null\<close>. (The order of the
  keys plays no role below: both callers sort them.)
\<close>

fun Object_keys :: "json \<Rightarrow> error + string list" where
  "Object_keys (JObject entries) = Inr (map fst entries)"
| "Object_keys (JArray xs) = Inr (map decimal [0..<length xs])"
| "Object_keys (JString s) = Inr (map decimal [0..<length s])"
| "Object_keys JNull = Inl (TypeError ''Cannot convert undefined or null to object'')"
| "Object_keys (JBool b) = Inr []"
| "Object_keys (JNumber n) = Inr []"

text \<open>
  \<open>value[name]\<close>. Both callers read a property only after their type guard has found
  the key among the keys of an object; the other cases (\<open>undefined\<close> in JavaScript) are
  given as \<open>JNull\<close>.
\<close>

fun property :: "json \<Rightarrow> string \<Rightarrow> json" where
  "property (JObject entries) name = (case map_of entries name of Some v \<Rightarrow> v | None \<Rightarrow> JNull)"
| "property v name = JNull"

section \<open>The binary parser\<close>

text \<open>
  Modelled from the spec: \<open>BinaryParser\<close> (serdes/binary-parser, not among the sources),
  section 4.5: an immutable byte buffer and an advancing cursor, \<open>read(n)\<close> and
  \<open>skip(n)\<close>, and any read past the end fails with UnexpectedEnd. The parser is
  represented by the bytes from the cursor on. \<open>new BinaryParser(this.toString())\<close>
  in the sources goes through the hexadecimal text of the bytes; here the parser is started
  on the bytes themselves.
\<close>

type_synonym BinaryParser = Buffer

definition BinaryParser_read :: "nat \<Rightarrow> BinaryParser \<Rightarrow> error + Buffer \<times> BinaryParser" where
  "BinaryParser_read n parser =
     (if n \<le> length parser then Inr (take n parser, drop n parser) else Inl UnexpectedEnd)"

definition BinaryParser_skip :: "nat \<Rightarrow> BinaryParser \<Rightarrow> error + BinaryParser" where
  "BinaryParser_skip n parser =
     (if n \<le> length parser then Inr (drop n parser) else Inl UnexpectedEnd)"

section \<open>The type classes that are not among the sources\<close>

text \<open>
  \<open>AccountID\<close>, \<open>Currency\<close>, \<open>IssuedCurrency\<close> and \<open>Amount\<close> are classes of the codec
  whose files are not among the sources (and \<open>AccountID\<close> rests on the address codec, an
  external collaborator). They are parameters of the model: a class is the triple of its
  static \<open>from\<close> followed by \<open>toBytes\<close>, its static \<open>fromParser\<close> followed by
  \<open>toBytes\<close> (with the parser as it is left), and \<open>toJSON\<close> of the value with the given
  bytes. \<open>coreTypes\<close> collects the classes, as the module of that name does.
\<close>

record SerializedType =
  st_from :: "json \<Rightarrow> error + Buffer"
  st_fromParser :: "BinaryParser \<Rightarrow> error + Buffer \<times> BinaryParser"
  st_toJSON :: "Buffer \<Rightarrow> error + json"

record coreTypes =
  AccountID :: SerializedType
  Currency :: SerializedType
  IssuedCurrency :: SerializedType
  Amount :: SerializedType

text \<open>
  What the spec says of such a class, as predicates. \<open>from_width n c\<close>: every value built
  from JSON has \<open>n\<close> bytes. \<open>reads_width n c\<close>: \<open>fromParser\<close> reads exactly \<open>n\<close> bytes
  and keeps them. \<open>json_roundtrip c\<close>: the bytes that \<open>fromParser\<close> returns have a JSON
  form from which \<open>from\<close> builds the same bytes again. \<open>issue_width c\<close>: an issue
  built from JSON has 20 bytes (a currency alone) or 40 bytes (a currency and an issuer).
\<close>

definition from_width :: "nat \<Rightarrow> SerializedType \<Rightarrow> bool" where
  "from_width n c = (\<forall>v bytes. st_from c v = Inr bytes \<longrightarrow> length bytes = n)"

definition reads_width :: "nat \<Rightarrow> SerializedType \<Rightarrow> bool" where
  "reads_width n c = (\<forall>parser. st_fromParser c parser = BinaryParser_read n parser)"

definition json_roundtrip :: "SerializedType \<Rightarrow> bool" where
  "json_roundtrip c =
     (\<forall>parser bytes rest. st_fromParser c parser = Inr (bytes, rest) \<longrightarrow>
        (\<exists>j. st_toJSON c bytes = Inr j \<and> st_from c j = Inr bytes))"


section \<open>Issue\<close>

text \<open>\<open>isIssueObject\<close>: the sorted keys are exactly \<open>currency\<close> and \<open>issuer\<close>.\<close>

definition isIssueObject :: "json \<Rightarrow> error + bool" where
  "isIssueObject arg =
     (case Object_keys arg of
        Inl e \<Rightarrow> Inl e
      | Inr ks \<Rightarrow>
          (let keys = sort ks
           in Inr (length keys = 2 \<and> keys ! 0 = ''currency'' \<and> keys ! 1 = ''issuer'')))"

text \<open>\<open>Issue.assertXrpIsValid\<close>: throws unless the string is \<open>XRP\<close>.\<close>

definition assertXrpIsValid :: "string \<Rightarrow> error + unit" where
  "assertXrpIsValid v =
     (if v \<noteq> ''XRP'' then Inl (Error (v @ '' is an illegal amount'')) else Inr ())"

text \<open>
  A value of the class is given by its bytes. The constructor keeps the bytes it is
  given and takes those of \<open>ZERO_ISSUED_CURRENCY\<close> when it is given none.
\<close>

definition ZERO_ISSUED_CURRENCY :: Buffer where
  "ZERO_ISSUED_CURRENCY = replicate 20 0"

fun Issue_new :: "Buffer option \<Rightarrow> Buffer" where
  "Issue_new (Some bytes) = bytes"
| "Issue_new None = ZERO_ISSUED_CURRENCY"

text \<open>\<open>Issue.from\<close>, followed by \<open>toBytes\<close>.\<close>

fun Issue_from :: "coreTypes \<Rightarrow> from_arg \<Rightarrow> error + Buffer" where
  "Issue_from T (Instance bytes) = Inr bytes"
| "Issue_from T (Json (JString v)) =
     (case assertXrpIsValid v of
        Inl e \<Rightarrow> Inl e
      | Inr u \<Rightarrow>
          (case st_from (Currency T) (JString v) of
             Inl e \<Rightarrow> Inl e
           | Inr currency \<Rightarrow> Inr (Issue_new (Some currency))))"
| "Issue_from T (Json v) =
     (case isIssueObject v of
        Inl e \<Rightarrow> Inl e
      | Inr True \<Rightarrow>
          (case st_from (Currency T) (property v ''currency'') of
             Inl e \<Rightarrow> Inl e
           | Inr currency \<Rightarrow>
               (case st_from (AccountID T) (property v ''issuer'') of
                  Inl e \<Rightarrow> Inl e
                | Inr issuer \<Rightarrow> Inr (Issue_new (Some (currency @ issuer)))))
      | Inr False \<Rightarrow> Inl (Error ''Invalid type to construct an Amount''))"

text \<open>\<open>Issue.fromParser\<close>, followed by \<open>toBytes\<close>, with the parser as it is left.\<close>

definition Issue_fromParser :: "coreTypes \<Rightarrow> BinaryParser \<Rightarrow> error + Buffer \<times> BinaryParser" where
  "Issue_fromParser T parser =
     (case BinaryParser_read 20 parser of
        Inl e \<Rightarrow> Inl e
      | Inr (currency, parser1) \<Rightarrow>
          (case st_toJSON (Currency T) currency of
             Inl e \<Rightarrow> Inl e
           | Inr cj \<Rightarrow>
               if cj = JString ''XRP'' then Inr (Issue_new (Some currency), parser1)
               else
                 (case BinaryParser_read 20 parser1 of
                    Inl e \<Rightarrow> Inl e
                  | Inr (issuer, parser2) \<Rightarrow>
                      Inr (Issue_new (Some (currency @ issuer)), parser2))))"

text \<open>\<open>Issue.toJSON\<close> of the value with the given bytes.\<close>

definition Issue_toJSON :: "coreTypes \<Rightarrow> Buffer \<Rightarrow> error + json" where
  "Issue_toJSON T bytes =
     (case st_fromParser (Currency T) bytes of
        Inl e \<Rightarrow> Inl e
      | Inr (currency, parser1) \<Rightarrow>
          (case st_toJSON (Currency T) currency of
             Inl e \<Rightarrow> Inl e
           | Inr cj \<Rightarrow>
               if cj = JString ''XRP'' then Inr cj
               else
                 (case st_fromParser (AccountID T) parser1 of
                    Inl e \<Rightarrow> Inl e
                  | Inr (issuer, parser2) \<Rightarrow>
                      (case st_toJSON (AccountID T) issuer of
                         Inl e \<Rightarrow> Inl e
                       | Inr ij \<Rightarrow> Inr (JObject [(''currency'', cj), (''issuer'', ij)])))))"

section \<open>XChainBridge\<close>

text \<open>\<open>isXChainBridgeObject\<close>: the sorted keys are exactly the four names.\<close>

definition isXChainBridgeObject :: "json \<Rightarrow> error + bool" where
  "isXChainBridgeObject arg =
     (case Object_keys arg of
        Inl e \<Rightarrow> Inl e
      | Inr ks \<Rightarrow>
          (let keys = sort ks
           in Inr (length keys = 4 \<and>
                   keys ! 0 = ''IssuingChainDoor'' \<and>
                   keys ! 1 = ''IssuingChainIssue'' \<and>
                   keys ! 2 = ''LockingChainDoor'' \<and>
                   keys ! 3 = ''LockingChainIssue'')))"

text \<open>
  \<open>XChainBridge.TYPE_ORDER\<close>. Its entries name a class; \<open>type_of\<close> finds the class in
  \<open>coreTypes\<close>.
\<close>

datatype type_ref = AccountID_type | IssuedCurrency_type

fun type_of :: "coreTypes \<Rightarrow> type_ref \<Rightarrow> SerializedType" where
  "type_of T AccountID_type = AccountID T"
| "type_of T IssuedCurrency_type = IssuedCurrency T"

definition TYPE_ORDER :: "(string \<times> type_ref) list" where
  "TYPE_ORDER =
     [(''LockingChainDoor'', AccountID_type),
      (''LockingChainIssue'', IssuedCurrency_type),
      (''IssuingChainDoor'', AccountID_type),
      (''IssuingChainIssue'', IssuedCurrency_type)]"

text \<open>
  The constructor keeps the bytes it is given and takes those of \<open>ZERO_XCHAIN_BRIDGE\<close>
  when it is given none.
\<close>

definition ZERO_XCHAIN_BRIDGE :: Buffer where
  "ZERO_XCHAIN_BRIDGE = concat [[0x14], replicate 40 0, [0x14], replicate 40 0]"

fun XChainBridge_new :: "Buffer option \<Rightarrow> Buffer" where
  "XChainBridge_new (Some bytes) = bytes"
| "XChainBridge_new None = ZERO_XCHAIN_BRIDGE"

text \<open>
  The loop of \<open>XChainBridge.from\<close> over the items that are left, with the array
  \<open>bytes\<close> as built so far; an exception of a class ends it.
\<close>

fun from_items ::
  "coreTypes \<Rightarrow> json \<Rightarrow> (string \<times> type_ref) list \<Rightarrow> Buffer list \<Rightarrow> error + Buffer list" where
  "from_items T v [] bytes = Inr bytes"
| "from_items T v ((name, type) # items) bytes =
     (let bytes1 = (if type = AccountID_type then bytes @ [[0x14]] else bytes)
      in case st_from (type_of T type) (property v name) of
           Inl e \<Rightarrow> Inl e
         | Inr object \<Rightarrow> from_items T v items (bytes1 @ [object]))"

text \<open>\<open>XChainBridge.from\<close>, followed by \<open>toBytes\<close>.\<close>

fun XChainBridge_from :: "coreTypes \<Rightarrow> from_arg \<Rightarrow> error + Buffer" where
  "XChainBridge_from T (Instance bytes) = Inr bytes"
| "XChainBridge_from T (Json v) =
     (case isXChainBridgeObject v of
        Inl e \<Rightarrow> Inl e
      | Inr True \<Rightarrow>
          (case from_items T v TYPE_ORDER [] of
             Inl e \<Rightarrow> Inl e
           | Inr bytes \<Rightarrow> Inr (XChainBridge_new (Some (concat bytes))))
      | Inr False \<Rightarrow> Inl (Error ''Invalid type to construct a XChainBridge''))"

text \<open>The loop of \<open>XChainBridge.fromParser\<close>: the parser is threaded through.\<close>

fun parse_items ::
  "coreTypes \<Rightarrow> (string \<times> type_ref) list \<Rightarrow> BinaryParser \<Rightarrow> Buffer list \<Rightarrow>
     error + Buffer list \<times> BinaryParser" where
  "parse_items T [] parser bytes = Inr (bytes, parser)"
| "parse_items T ((name, type) # items) parser bytes =
     (case (if type = AccountID_type
            then (case BinaryParser_skip 1 parser of
                    Inl e \<Rightarrow> Inl e
                  | Inr parser1 \<Rightarrow> Inr (parser1, bytes @ [[0x14]]))
            else Inr (parser, bytes)) of
        Inl e \<Rightarrow> Inl e
      | Inr (parser1, bytes1) \<Rightarrow>
          (case st_fromParser (type_of T type) parser1 of
             Inl e \<Rightarrow> Inl e
           | Inr (object, parser2) \<Rightarrow> parse_items T items parser2 (bytes1 @ [object])))"

text \<open>\<open>XChainBridge.fromParser\<close>, followed by \<open>toBytes\<close>, with the parser as it is left.\<close>

definition XChainBridge_fromParser ::
  "coreTypes \<Rightarrow> BinaryParser \<Rightarrow> error + Buffer \<times> BinaryParser" where
  "XChainBridge_fromParser T parser =
     (case parse_items T TYPE_ORDER parser [] of
        Inl e \<Rightarrow> Inl e
      | Inr (bytes, parser1) \<Rightarrow> Inr (XChainBridge_new (Some (concat bytes)), parser1))"

text \<open>
  The loop of \<open>XChainBridge.toJSON\<close>: \<open>json[name] = object\<close> sets the entry of an
  object, in place when the key is there and at the end otherwise.
\<close>

fun json_items ::
  "coreTypes \<Rightarrow> (string \<times> type_ref) list \<Rightarrow> BinaryParser \<Rightarrow> (string \<times> json) list \<Rightarrow>
     error + (string \<times> json) list" where
  "json_items T [] parser json = Inr json"
| "json_items T ((name, type) # items) parser json =
     (case (if type = AccountID_type then BinaryParser_skip 1 parser else Inr parser) of
        Inl e \<Rightarrow> Inl e
      | Inr parser1 \<Rightarrow>
          (case st_fromParser (type_of T type) parser1 of
             Inl e \<Rightarrow> Inl e
           | Inr (bytes, parser2) \<Rightarrow>
               (case st_toJSON (type_of T type) bytes of
                  Inl e \<Rightarrow> Inl e
                | Inr object \<Rightarrow> json_items T items parser2 (AList.update name object json))))"

text \<open>\<open>XChainBridge.toJSON\<close> of the value with the given bytes.\<close>

definition XChainBridge_toJSON :: "coreTypes \<Rightarrow> Buffer \<Rightarrow> error + json" where
  "XChainBridge_toJSON T bytes =
     (case json_items T TYPE_ORDER bytes [] of
        Inl e \<Rightarrow> Inl e
      | Inr json \<Rightarrow> Inr (JObject json))"

section \<open>The facade: serializeObject, signingData, signingClaimData, multiSigningData\<close>

subsection \<open>Hash prefixes and the byte sink\<close>

text \<open>
  Modelled from the spec: the constants of \<open>HashPrefix\<close> (hash-prefixes, not among the
  sources); section 4.6 gives the three values.
\<close>

definition HashPrefix_transactionSig :: Buffer where
  "HashPrefix_transactionSig = [0x53, 0x54, 0x58, 0x00]"

definition HashPrefix_transactionMultiSig :: Buffer where
  "HashPrefix_transactionMultiSig = [0x53, 0x4D, 0x54, 0x00]"

definition HashPrefix_paymentChannelClaim :: Buffer where
  "HashPrefix_paymentChannelClaim = [0x43, 0x4C, 0x4D, 0x00]"

text \<open>
  Modelled from the spec: \<open>BytesList\<close> (serdes/binary-serializer, not among the
  sources), section 4.5: an append-only byte sink.
\<close>

type_synonym BytesList = "Buffer list"

definition BytesList_put :: "Buffer \<Rightarrow> BytesList \<Rightarrow> BytesList" where
  "BytesList_put bytes bytesList = bytesList @ [bytes]"

definition BytesList_toBytes :: "BytesList \<Rightarrow> Buffer" where
  "BytesList_toBytes bytesList = concat bytesList"

subsection \<open>The definitions registry and STObject.from\<close>

text \<open>
  Modelled from the spec: a field definition and the registry (enums, not among the
  sources), sections 3 and 4.1. The registry, the encoding of one field (its header, its
  length prefix when it has one, the bytes of its value and the end marker of a nested
  object: sections 4.2 to 4.4) and the library \<open>big-integer\<close> are parameters, collected
  in \<open>codec_env\<close> with the classes.
\<close>

record FieldDefinition =
  field_name :: string
  field_type :: string
  field_code :: nat
  isVLEncoded :: bool
  isSerialized :: bool
  isSigningField :: bool

record codec_env =
  types :: coreTypes
  field_by_name :: "string \<Rightarrow> FieldDefinition option"
  type_code :: "string \<Rightarrow> int"
  field_bytes :: "FieldDefinition \<Rightarrow> json \<Rightarrow> error + Buffer"
  bigInt :: "string \<Rightarrow> error + int"

text \<open>
  Modelled from the spec: \<open>STObject.from(object, filter)\<close> (types/st-object, not among
  the sources), section 4.4. Construction from JSON iterates the entries and looks each
  key up in the registry, failing with UnknownField (the core is strict); a field whose
  \<open>isSerialized\<close> is false is never emitted, and on signing paths the caller's predicate
  applies as well; the fields are emitted in canonical order, sorted by type code and
  field code.
\<close>

fun lookup_fields ::
  "codec_env \<Rightarrow> (string \<times> json) list \<Rightarrow> error + (FieldDefinition \<times> json) list" where
  "lookup_fields E [] = Inr []"
| "lookup_fields E ((key, v) # entries) =
     (case field_by_name E key of
        None \<Rightarrow> Inl (UnknownField key)
      | Some f \<Rightarrow>
          (case lookup_fields E entries of
             Inl e \<Rightarrow> Inl e
           | Inr fs \<Rightarrow> Inr ((f, v) # fs)))"

definition emitted :: "(FieldDefinition \<Rightarrow> bool) option \<Rightarrow> FieldDefinition \<Rightarrow> bool" where
  "emitted field_filter f =
     (isSerialized f \<and> (case field_filter of None \<Rightarrow> True | Some keep \<Rightarrow> keep f))"

definition canonical_order ::
  "codec_env \<Rightarrow> (FieldDefinition \<times> json) list \<Rightarrow> (FieldDefinition \<times> json) list" where
  "canonical_order E fs =
     sort_key (\<lambda>(f, v). (type_code E (field_type f), field_code f)) fs"

definition STObject_fields ::
  "codec_env \<Rightarrow> (string \<times> json) list \<Rightarrow> (FieldDefinition \<Rightarrow> bool) option \<Rightarrow>
     error + (FieldDefinition \<times> json) list" where
  "STObject_fields E object field_filter =
     (case lookup_fields E object of
        Inl e \<Rightarrow> Inl e
      | Inr fs \<Rightarrow> Inr (canonical_order E (filter (\<lambda>(f, v). emitted field_filter f) fs)))"

fun emit_fields :: "codec_env \<Rightarrow> (FieldDefinition \<times> json) list \<Rightarrow> error + Buffer" where
  "emit_fields E [] = Inr []"
| "emit_fields E ((f, v) # fs) =
     (case field_bytes E f v of
        Inl e \<Rightarrow> Inl e
      | Inr bytes \<Rightarrow>
          (case emit_fields E fs of
             Inl e \<Rightarrow> Inl e
           | Inr rest \<Rightarrow> Inr (bytes @ rest)))"

definition STObject_from ::
  "codec_env \<Rightarrow> (string \<times> json) list \<Rightarrow> (FieldDefinition \<Rightarrow> bool) option \<Rightarrow> error + Buffer" where
  "STObject_from E object field_filter =
     (case STObject_fields E object field_filter of
        Inl e \<Rightarrow> Inl e
      | Inr fs \<Rightarrow> emit_fields E fs)"

text \<open>
  What the spec says of \<open>Amount\<close>: an amount built from a JSON object (an issued
  amount) has 48 bytes.
\<close>

definition issued_amount_width :: "SerializedType \<Rightarrow> bool" where
  "issued_amount_width c =
     (\<forall>entries bytes. st_from c (JObject entries) = Inr bytes \<longrightarrow> length bytes = 48)"

subsection \<open>serializeObject, signingData and multiSigningData\<close>

record OptionObject =
  prefix :: "Buffer option"
  suffix :: "Buffer option"
  signingFieldsOnly :: "bool option"

text \<open>
  \<open>serializeObject\<close>. A buffer is truthy, so \<open>if (prefix)\<close> asks whether the option is
  there; \<open>signingFieldsOnly\<close> is false when it is left out.
\<close>

definition serializeObject ::
  "codec_env \<Rightarrow> (string \<times> json) list \<Rightarrow> OptionObject \<Rightarrow> error + Buffer" where
  "serializeObject E object opts =
     (let signing = (case signingFieldsOnly opts of None \<Rightarrow> False | Some b \<Rightarrow> b);
          bytesList = [];
          bytesList1 = (case prefix opts of
                          Some p \<Rightarrow> BytesList_put p bytesList
                        | None \<Rightarrow> bytesList);
          field_filter = (if signing then Some isSigningField else None)
      in case STObject_from E object field_filter of
           Inl e \<Rightarrow> Inl e
         | Inr bytes \<Rightarrow>
             (let bytesList2 = BytesList_put bytes bytesList1;
                  bytesList3 = (case suffix opts of
                                  Some s \<Rightarrow> BytesList_put s bytesList2
                                | None \<Rightarrow> bytesList2)
              in Inr (BytesList_toBytes bytesList3)))"

text \<open>\<open>signingData\<close>; the prefix is \<open>HashPrefix.transactionSig\<close> when it is left out.\<close>

definition signingData ::
  "codec_env \<Rightarrow> (string \<times> json) list \<Rightarrow> Buffer option \<Rightarrow> error + Buffer" where
  "signingData E transaction prefix_arg =
     (let p = (case prefix_arg of None \<Rightarrow> HashPrefix_transactionSig | Some p \<Rightarrow> p)
      in serializeObject E transaction
           \<lparr>prefix = Some p, suffix = None, signingFieldsOnly = Some True\<rparr>)"

text \<open>\<open>multiSigningData\<close>.\<close>

definition multiSigningData ::
  "codec_env \<Rightarrow> (string \<times> json) list \<Rightarrow> json \<Rightarrow> error + Buffer" where
  "multiSigningData E transaction signingAccount =
     (case st_from (AccountID (types E)) signingAccount of
        Inl e \<Rightarrow> Inl e
      | Inr s \<Rightarrow>
          serializeObject E transaction
            \<lparr>prefix = Some HashPrefix_transactionMultiSig, suffix = Some s,
             signingFieldsOnly = Some True\<rparr>)"

subsection \<open>signingClaimData\<close>

text \<open>
  Modelled from the spec: \<open>Hash256.from\<close> and \<open>UInt64.from\<close> (types/hash-256 and
  types/uint-64, not among the sources), section 4.3: a hash is exactly 32 bytes, given
  in JSON as a hex string in either case; an unsigned integer is big-endian, of fixed
  width.
\<close>

definition hex_value :: "char \<Rightarrow> nat option" where
  "hex_value c =
     (let n = of_char c :: nat
      in if 48 \<le> n \<and> n \<le> 57 then Some (n - 48)
         else if 65 \<le> n \<and> n \<le> 70 then Some (n - 55)
         else if 97 \<le> n \<and> n \<le> 102 then Some (n - 87)
         else None)"

fun hex_bytes :: "string \<Rightarrow> Buffer option" where
  "hex_bytes [] = Some []"
| "hex_bytes [c] = None"
| "hex_bytes (c # d # cs) =
     (case hex_value c of
        None \<Rightarrow> None
      | Some h \<Rightarrow>
          (case hex_value d of
             None \<Rightarrow> None
           | Some l \<Rightarrow>
               (case hex_bytes cs of
                  None \<Rightarrow> None
                | Some bytes \<Rightarrow> Some (of_nat (16 * h + l) # bytes))))"

fun Hash256_from :: "json \<Rightarrow> error + Buffer" where
  "Hash256_from (JString s) =
     (case hex_bytes s of
        None \<Rightarrow> Inl (Error ''Invalid hex string'')
      | Some bytes \<Rightarrow>
          if length bytes = 32 then Inr bytes else Inl (Error ''Invalid Hash length''))"
| "Hash256_from v = Inl (Error ''Cannot construct Hash256 from given value'')"

definition UInt64_from :: "int \<Rightarrow> error + Buffer" where
  "UInt64_from n =
     (if 0 \<le> n \<and> n < 2 ^ 64
      then Inr (map (\<lambda>i. of_int (n div 256 ^ (7 - i))) [0..<8])
      else Inl (RangeError ''value out of bounds''))"

text \<open>The number a buffer spells when it is read big-endian.\<close>

definition big_endian :: "Buffer \<Rightarrow> int" where
  "big_endian bytes = foldl (\<lambda>acc b. acc * 256 + uint b) 0 bytes"

record ClaimObject =
  channel :: json
  amount :: json

text \<open>
  \<open>String(claim.amount)\<close> for an amount that is not an object: a string is itself, a
  number is its decimal numeral.
\<close>

fun String_of :: "json \<Rightarrow> string" where
  "String_of (JString s) = s"
| "String_of (JNumber n) = (if n < 0 then CHR ''-'' # decimal (nat (- n)) else decimal (nat n))"
| "String_of (JBool b) = (if b then ''true'' else ''false'')"
| "String_of v = ''[object Object]''"

text \<open>\<open>typeof v === 'object'\<close>: an object, an array or \<open>null\<close>.\<close>

fun is_object :: "json \<Rightarrow> bool" where
  "is_object (JObject entries) = True"
| "is_object (JArray xs) = True"
| "is_object JNull = True"
| "is_object v = False"

text \<open>\<open>signingClaimData\<close>.\<close>

definition signingClaimData :: "codec_env \<Rightarrow> ClaimObject \<Rightarrow> error + Buffer" where
  "signingClaimData E claim =
     (let prefix_bytes = HashPrefix_paymentChannelClaim
      in case Hash256_from (channel claim) of
           Inl e \<Rightarrow> Inl e
         | Inr channel_bytes \<Rightarrow>
             (let bytesList = BytesList_put channel_bytes (BytesList_put prefix_bytes [])
              in if is_object (amount claim)
                 then (case st_from (Amount (types E)) (amount claim) of
                         Inl e \<Rightarrow> Inl e
                       | Inr amount_bytes \<Rightarrow>
                           Inr (BytesList_toBytes (BytesList_put amount_bytes bytesList)))
                 else (case bigInt E (String_of (amount claim)) of
                         Inl e \<Rightarrow> Inl e
                       | Inr num \<Rightarrow>
                           (case UInt64_from num of
                              Inl e \<Rightarrow> Inl e
                            | Inr amount_bytes \<Rightarrow>
                                Inr (BytesList_toBytes (BytesList_put amount_bytes bytesList))))))"

section \<open>An instance of the parameters\<close>

text \<open>
  One choice of the classes and of the registry, to apply the theorems below to concrete
  inputs. In it an account is written as its 40 hex digits in place of the base58
  address, a currency is \<open>XRP\<close> (20 zero bytes), a 3-letter code (at bytes 12 to 14) or
  40 hex digits, the issue of a bridge is encoded by the class \<open>Issue\<close> above, and an
  amount object is encoded with the value zero.
\<close>

definition hex_char :: "nat \<Rightarrow> char" where
  "hex_char n = (if n < 10 then char_of (48 + n) else char_of (55 + n))"

definition hex_of :: "Buffer \<Rightarrow> string" where
  "hex_of bytes = concat (map (\<lambda>b. [hex_char (unat b div 16), hex_char (unat b mod 16)]) bytes)"

fun hash160_from :: "json \<Rightarrow> error + Buffer" where
  "hash160_from (JString s) =
     (case hex_bytes s of
        None \<Rightarrow> Inl (Error ''Invalid hex string'')
      | Some bytes \<Rightarrow>
          if length bytes = 20 then Inr bytes else Inl (Error ''Invalid Hash length''))"
| "hash160_from v = Inl (Error ''Cannot construct Hash160 from given value'')"

definition example_AccountID :: SerializedType where
  "example_AccountID =
     \<lparr>st_from = hash160_from,
      st_fromParser = BinaryParser_read 20,
      st_toJSON = (\<lambda>bytes. Inr (JString (hex_of bytes)))\<rparr>"

fun currency_from :: "json \<Rightarrow> error + Buffer" where
  "currency_from (JString s) =
     (if s = ''XRP'' then Inr (replicate 20 0)
      else if length s = 3 then Inr (replicate 12 0 @ map of_char s @ replicate 5 0)
      else hash160_from (JString s))"
| "currency_from v = Inl (Error ''Unsupported Currency representation'')"

definition example_Currency :: SerializedType where
  "example_Currency =
     \<lparr>st_from = currency_from,
      st_fromParser = BinaryParser_read 20,
      st_toJSON = (\<lambda>bytes. Inr (JString (if bytes = replicate 20 0 then ''XRP'' else hex_of bytes)))\<rparr>"

definition example_Amount :: SerializedType where
  "example_Amount =
     \<lparr>st_from = (\<lambda>v.
        case currency_from (property v ''currency'') of
          Inl e \<Rightarrow> Inl e
        | Inr c \<Rightarrow>
            (case hash160_from (property v ''issuer'') of
               Inl e \<Rightarrow> Inl e
             | Inr i \<Rightarrow> Inr ([0x80, 0, 0, 0, 0, 0, 0, 0] @ c @ i))),
      st_fromParser = BinaryParser_read 48,
      st_toJSON = (\<lambda>bytes. Inl (Error ''not part of the instance''))\<rparr>"

text \<open>The class \<open>Issue\<close> as a \<open>SerializedType\<close>.\<close>

definition Issue_class :: "coreTypes \<Rightarrow> SerializedType" where
  "Issue_class T =
     \<lparr>st_from = (\<lambda>v. Issue_from T (Json v)),
      st_fromParser = Issue_fromParser T,
      st_toJSON = Issue_toJSON T\<rparr>"

definition example_types :: coreTypes where
  "example_types =
     \<lparr>AccountID = example_AccountID,
      Currency = example_Currency,
      IssuedCurrency =
        Issue_class
          \<lparr>AccountID = example_AccountID, Currency = example_Currency,
           IssuedCurrency = example_Currency, Amount = example_Amount\<rparr>,
      Amount = example_Amount\<rparr>"







text \<open>
  A registry of five fields, the encoding of a field as one header byte followed by the
  bytes of its hex string (after their number, when the field is length-prefixed), and
  decimal numerals for \<open>big-integer\<close>.
\<close>

definition example_fields :: "(string \<times> FieldDefinition) list" where
  "example_fields =
     [(''Sequence'',
       \<lparr>field_name = ''Sequence'', field_type = ''UInt32'', field_code = 4,
        isVLEncoded = False, isSerialized = True, isSigningField = True\<rparr>),
      (''SigningPubKey'',
       \<lparr>field_name = ''SigningPubKey'', field_type = ''Blob'', field_code = 3,
        isVLEncoded = True, isSerialized = True, isSigningField = True\<rparr>),
      (''TxnSignature'',
       \<lparr>field_name = ''TxnSignature'', field_type = ''Blob'', field_code = 4,
        isVLEncoded = True, isSerialized = True, isSigningField = False\<rparr>),
      (''hash'',
       \<lparr>field_name = ''hash'', field_type = ''Hash256'', field_code = 257,
        isVLEncoded = False, isSerialized = False, isSigningField = False\<rparr>),
      (''index'',
       \<lparr>field_name = ''index'', field_type = ''Hash256'', field_code = 258,
        isVLEncoded = False, isSerialized = False, isSigningField = True\<rparr>)]"

definition example_type_code :: "string \<Rightarrow> int" where
  "example_type_code t =
     (if t = ''UInt32'' then 2 else if t = ''Hash256'' then 5 else if t = ''Blob'' then 7 else - 2)"

definition example_field_bytes :: "FieldDefinition \<Rightarrow> json \<Rightarrow> error + Buffer" where
  "example_field_bytes f v =
     (case v of
        JString s \<Rightarrow>
          (case hex_bytes s of
             None \<Rightarrow> Inl (Error ''Invalid hex string'')
           | Some bytes \<Rightarrow>
               Inr (of_int (16 * example_type_code (field_type f) + int (field_code f)) #
                    (if isVLEncoded f then of_nat (length bytes) # bytes else bytes)))
      | _ \<Rightarrow> Inl (Error ''Unsupported value''))"

fun decimal_value :: "int \<Rightarrow> string \<Rightarrow> error + int" where
  "decimal_value acc [] = Inr acc"
| "decimal_value acc (c # cs) =
     (let n = of_char c :: nat
      in if 48 \<le> n \<and> n \<le> 57 then decimal_value (10 * acc + int (n - 48)) cs
         else Inl (Error ''Invalid integer''))"

text \<open>A transaction, a signing account and two claims.\<close>

definition example_tx :: "(string \<times> json) list" where
  "example_tx =
     [(''TxnSignature'', JString ''AA''),
      (''SigningPubKey'', JString []),
      (''hash'', JString ''00''),
      (''Sequence'', JString ''00000001''),
      (''index'', JString ''01'')]"

definition example_account :: json where
  "example_account = JString ''0202020202020202020202020202020202020202''"

definition example_claim :: ClaimObject where
  "example_claim =
     \<lparr>channel = JString ''00000000000000000000000000000000000000000000000000000000000000FF'',
      amount = JString ''1000''\<rparr>"

definition example_claim_issued :: ClaimObject where
  "example_claim_issued =
     \<lparr>channel = JString ''00000000000000000000000000000000000000000000000000000000000000ff'',
      amount = JObject [(''value'', JString ''0''), (''currency'', JString ''USD''),
                        (''issuer'', JString ''0101010101010101010101010101010101010101'')]\<rparr>"

definition example_env :: codec_env where
  "example_env =
     \<lparr>types = example_types,
      field_by_name = map_of example_fields,
      type_code = example_type_code,
      field_bytes = example_field_bytes,
      bigInt = (\<lambda>s. if s = [] then Inl (Error ''Invalid integer'') else decimal_value 0 s)\<rparr>"

section \<open>Issue: which JSON is accepted\<close>

lemma currency_less_issuer: "''currency'' < ''issuer''"
  by (simp add: less_char_def)

text \<open>The type guard holds for the two orders in which the two keys can stand.\<close>

lemma isIssueObject_keys:
  "isIssueObject (JObject entries) =
     Inr (map fst entries = [''currency'', ''issuer''] \<or>
          map fst entries = [''issuer'', ''currency''])"
proof (cases "length (map fst entries) = 2")
  case True
  then obtain a b where ab: "map fst entries = [a, b]"
    by (metis (no_types, opaque_lifting) One_nat_def Suc_1 length_0_conv length_Suc_conv)
  show ?thesis
    using currency_less_issuer by (auto simp add: isIssueObject_def ab)
next
  case False
  then show ?thesis
    by (auto simp add: isIssueObject_def simp del: length_map)
qed

lemma Issue_from_object:
  "Issue_from T (Json (JObject entries)) =
     (if map fst entries = [''currency'', ''issuer''] \<or>
         map fst entries = [''issuer'', ''currency'']
      then (case st_from (Currency T) (property (JObject entries) ''currency'') of
              Inl e \<Rightarrow> Inl e
            | Inr currency \<Rightarrow>
                (case st_from (AccountID T) (property (JObject entries) ''issuer'') of
                   Inl e \<Rightarrow> Inl e
                 | Inr issuer \<Rightarrow> Inr (currency @ issuer)))
      else Inl (Error ''Invalid type to construct an Amount''))"
  by (simp add: isIssueObject_keys del: property.simps split: sum.splits)

text \<open>
  C7. A string other than \<open>XRP\<close> makes \<open>Issue.from\<close> throw (the message names the
  string); the string \<open>XRP\<close> passes the check and is handed to \<open>Currency.from\<close>.
\<close>

theorem Issue_from_string:
  "(s \<noteq> ''XRP'' \<longrightarrow>
      Issue_from T (Json (JString s)) = Inl (Error (s @ '' is an illegal amount'')))
   \<and> Issue_from T (Json (JString ''XRP'')) = st_from (Currency T) (JString ''XRP'')"
  by (simp add: assertXrpIsValid_def split: sum.splits)

theorem Issue_from_string_witness:
  "''USD'' \<noteq> ''XRP''
   \<and> Issue_from example_types (Json (JString ''USD'')) = Inl (Error ''USD is an illegal amount'')
   \<and> Issue_from example_types (Json (JString ''XRP'')) = Inr (replicate 20 0)"
  using Issue_from_string [of "''USD''" example_types]
  by (simp add: example_types_def example_Currency_def)

text \<open>
  C10. \<open>Issue.from\<close> returns a value for a JSON object only when the keys of the object
  are exactly \<open>currency\<close> and \<open>issuer\<close>; for every other set of keys it throws
  \<open>Invalid type to construct an Amount\<close>.
\<close>

theorem Issue_from_object_keys:
  "(Issue_from T (Json (JObject entries)) = Inr bytes \<longrightarrow>
      set (map fst entries) = {''currency'', ''issuer''} \<and> length entries = 2)
   \<and> (set (map fst entries) \<noteq> {''currency'', ''issuer''} \<longrightarrow>
      Issue_from T (Json (JObject entries)) =
        Inl (Error ''Invalid type to construct an Amount''))"
  unfolding Issue_from_object
  apply (intro conjI impI)
  subgoal by (auto split: if_splits dest: arg_cong [where f = length])
  subgoal by (auto split: if_splits dest: arg_cong [where f = length])
  subgoal by (auto split: if_splits)
  done

lemma example_three_keys: "set (map fst [(''currency'', JString ''USD''),
                    (''issuer'', JString ''0101010101010101010101010101010101010101''),
                    (''value'', JString ''1'')]) \<noteq> {''currency'', ''issuer''}"
proof
  assume e: "set (map fst [(''currency'', JString ''USD''),
                    (''issuer'', JString ''0101010101010101010101010101010101010101''),
                    (''value'', JString ''1'')]) = {''currency'', ''issuer''}"
  have "''value'' \<in> set (map fst [(''currency'', JString ''USD''),
                    (''issuer'', JString ''0101010101010101010101010101010101010101''),
                    (''value'', JString ''1'')])"
    by simp
  then have "''value'' \<in> {''currency'', ''issuer''}"
    unfolding e .
  then show False by simp
qed

theorem Issue_from_object_keys_witness:
  "Issue_from example_types
     (Json (JObject [(''issuer'', JString ''0101010101010101010101010101010101010101''),
                     (''currency'', JString ''USD'')])) =
     Inr (replicate 12 0 @ [0x55, 0x53, 0x44] @ replicate 5 0 @ replicate 20 1)
   \<and> set (map fst [(''issuer'', JString ''0101010101010101010101010101010101010101''),
                    (''currency'', JString ''USD'')]) = {''currency'', ''issuer''}
   \<and> set (map fst [(''currency'', JString ''XRP'')]) \<noteq> {''currency'', ''issuer''}
   \<and> Issue_from example_types (Json (JObject [(''currency'', JString ''XRP'')])) =
       Inl (Error ''Invalid type to construct an Amount'')
   \<and> set (map fst [(''currency'', JString ''USD''),
                    (''issuer'', JString ''0101010101010101010101010101010101010101''),
                    (''value'', JString ''1'')]) \<noteq> {''currency'', ''issuer''}
   \<and> Issue_from example_types
       (Json (JObject [(''currency'', JString ''USD''),
                       (''issuer'', JString ''0101010101010101010101010101010101010101''),
                       (''value'', JString ''1'')])) =
       Inl (Error ''Invalid type to construct an Amount'')"
proof -
  have a: "Issue_from example_types
     (Json (JObject [(''issuer'', JString ''0101010101010101010101010101010101010101''),
                     (''currency'', JString ''USD'')])) =
     Inr (replicate 12 0 @ [0x55, 0x53, 0x44] @ replicate 5 0 @ replicate 20 1)"
    by code_simp
  note t1 = conjunct1 [OF mp [OF conjunct1 [OF Issue_from_object_keys] a]]
  have n: "set (map fst [(''currency'', JString ''XRP'')]) \<noteq> {''currency'', ''issuer''}"
    by simp
  note t2 = mp [OF conjunct2 [OF Issue_from_object_keys [where bytes = "[]"]] n]
  note t3 = mp [OF conjunct2 [OF Issue_from_object_keys [where bytes = "[]"]] example_three_keys]
  show ?thesis
    by (intro conjI a t1 n t2 example_three_keys t3)
qed

section \<open>Helper lemmas: the parser and the guards\<close>

lemma read_Inr:
  "BinaryParser_read n parser = Inr (bytes, rest) \<longleftrightarrow>
     n \<le> length parser \<and> bytes = take n parser \<and> rest = drop n parser"
  by (auto simp add: BinaryParser_read_def)

lemma read_exact: "length bytes = n \<Longrightarrow> BinaryParser_read n (bytes @ rest) = Inr (bytes, rest)"
  by (simp add: BinaryParser_read_def)

lemma skip_Cons: "BinaryParser_skip (Suc 0) (m # parser) = Inr parser"
  by (simp add: BinaryParser_skip_def)

lemma skip_Nil: "BinaryParser_skip (Suc 0) [] = Inl UnexpectedEnd"
  by (simp add: BinaryParser_skip_def)

lemma skip_Inr: "BinaryParser_skip (Suc 0) parser = Inr rest \<longleftrightarrow> (\<exists>m. parser = m # rest)"
  by (cases parser) (auto simp add: skip_Cons skip_Nil)

lemma json_roundtripD:
  assumes "json_roundtrip c" and "st_fromParser c parser = Inr (bytes, rest)"
  shows "\<exists>j. st_toJSON c bytes = Inr j \<and> st_from c j = Inr bytes"
  using assms unfolding json_roundtrip_def by blast

lemma json_roundtrip_from:
  assumes "json_roundtrip c" and "st_fromParser c parser = Inr (bytes, rest)"
    and "st_toJSON c bytes = Inr j"
  shows "st_from c j = Inr bytes"
  using json_roundtripD [OF assms(1,2)] assms(3) by auto

text \<open>The keys of an array or of a string are numerals: they never are a name.\<close>

lemma decimal_digits: "set (decimal n) \<subseteq> char_of ` {48 ..< 58 :: nat}"
proof (induction n rule: decimal.induct)
  case (1 n)
  show ?case
  proof (cases "n < 10")
    case True
    then show ?thesis by (subst decimal.simps) auto
  next
    case False
    have "n mod 10 < 10" by simp
    then have "48 + n mod 10 \<in> {48 ..< 58}" by auto
    with 1 False show ?thesis by (subst decimal.simps) auto
  qed
qed

lemma decimal_no_letter:
  assumes "c \<in> set (decimal n)"
  shows "(of_char c :: nat) < 58"
proof -
  from assms decimal_digits [of n] obtain k :: nat where "k < 58" and "c = char_of k"
    by auto
  then show ?thesis by simp
qed

lemma index_keys_head:
  assumes "sort (map decimal ns) = (c # cs) # ks"
  shows "(of_char c :: nat) < 58"
proof -
  from assms have "c # cs \<in> set (sort (map decimal ns))"
    by (simp only: list.set_intros)
  then have "c # cs \<in> decimal ` set ns"
    by (simp only: set_sort set_map)
  then obtain n where "c # cs = decimal n" by (rule imageE)
  then have "c \<in> set (decimal n)" by (metis list.set_intros(1))
  then show ?thesis by (rule decimal_no_letter)
qed

lemma list2_nth:
  "length ks = 2 \<and> ks ! 0 = a \<and> ks ! 1 = b \<longleftrightarrow> ks = [a, b]"
proof
  assume h: "length ks = 2 \<and> ks ! 0 = a \<and> ks ! 1 = b"
  then have "length ks = Suc (Suc 0)" by simp
  then obtain w x where "ks = [w, x]"
    by (auto simp add: length_Suc_conv)
  with h show "ks = [a, b]" by simp
qed auto

lemma list4_nth:
  "length ks = 4 \<and> ks ! 0 = a \<and> ks ! 1 = b \<and> ks ! 2 = c \<and> ks ! 3 = d \<longleftrightarrow> ks = [a, b, c, d]"
proof
  assume h: "length ks = 4 \<and> ks ! 0 = a \<and> ks ! 1 = b \<and> ks ! 2 = c \<and> ks ! 3 = d"
  then have "length ks = Suc (Suc (Suc (Suc 0)))" by simp
  then obtain w x y z where "ks = [w, x, y, z]"
    by (auto simp add: length_Suc_conv)
  with h show "ks = [a, b, c, d]" by simp
qed auto

lemma isIssueObject_sorted:
  "isIssueObject v = Inr True \<longleftrightarrow>
     (\<exists>ks. Object_keys v = Inr ks \<and> sort ks = [''currency'', ''issuer''])"
proof (cases "Object_keys v")
  case (Inl e)
  then show ?thesis by (simp add: isIssueObject_def)
next
  case (Inr ks)
  then show ?thesis
    using list2_nth [of "sort ks" "''currency''" "''issuer''"]
    by (simp add: isIssueObject_def Let_def)
qed

lemma isIssueObject_object:
  assumes "isIssueObject v = Inr True"
  shows "\<exists>entries. v = JObject entries"
proof -
  from assms obtain ks where k: "Object_keys v = Inr ks"
    and s: "sort ks = [''currency'', ''issuer'']"
    unfolding isIssueObject_sorted by blast
  show ?thesis
  proof (cases v)
    case (JArray xs)
    with k s have "sort (map decimal [0..<length xs]) = ''currency'' # [''issuer'']" by auto
    from index_keys_head [OF this] show ?thesis by simp
  next
    case (JString x)
    with k s have "sort (map decimal [0..<length x]) = ''currency'' # [''issuer'']" by auto
    from index_keys_head [OF this] show ?thesis by simp
  qed (use k s in auto)
qed

lemma Issue_from_accepts:
  assumes "Issue_from T (Json j) = Inr bytes"
  shows "(\<exists>s. j = JString s) \<or> (\<exists>entries. j = JObject entries)"
proof (cases "\<exists>s. j = JString s")
  case False
  with assms have "isIssueObject j = Inr True"
    by (cases j) (auto split: sum.splits bool.splits)
  from isIssueObject_object [OF this] show ?thesis by blast
qed simp

lemma Issue_toJSON_cases:
  assumes "Issue_toJSON T bytes = Inr j"
  shows "\<exists>c rest cj. st_fromParser (Currency T) bytes = Inr (c, rest) \<and>
       st_toJSON (Currency T) c = Inr cj \<and>
       (if cj = JString ''XRP'' then j = JString ''XRP''
        else \<exists>i rest' ij. st_fromParser (AccountID T) rest = Inr (i, rest') \<and>
               st_toJSON (AccountID T) i = Inr ij \<and>
               j = JObject [(''currency'', cj), (''issuer'', ij)])"
  using assms
  by (auto simp add: Issue_toJSON_def split: sum.splits prod.splits if_splits)

text \<open>
  What \<open>Issue.fromParser\<close> returns has a JSON form, and \<open>Issue.from\<close> builds the same
  bytes from it.
\<close>

lemma Issue_roundtrip:
  assumes rc: "reads_width 20 (Currency T)" and ra: "reads_width 20 (AccountID T)"
    and jc: "json_roundtrip (Currency T)" and ja: "json_roundtrip (AccountID T)"
    and p: "Issue_fromParser T parser = Inr (bytes, rest)"
  shows "\<exists>j. Issue_toJSON T bytes = Inr j \<and> Issue_from T (Json j) = Inr bytes"
proof -
  from p obtain c p1 cj where
    r1: "BinaryParser_read 20 parser = Inr (c, p1)" and cj: "st_toJSON (Currency T) c = Inr cj"
    by (auto simp add: Issue_fromParser_def split: sum.splits prod.splits)
  from r1 have lc: "length c = 20" by (auto simp add: read_Inr)
  have pc: "\<And>r. st_fromParser (Currency T) (c @ r) = Inr (c, r)"
    using rc lc by (simp add: reads_width_def read_exact)
  from jc pc [of "[]"] cj have fc: "st_from (Currency T) cj = Inr c"
    by (auto intro: json_roundtrip_from)
  show ?thesis
  proof (cases "cj = JString ''XRP''")
    case True
    with p r1 cj have b: "bytes = c"
      by (auto simp add: Issue_fromParser_def)
    have "Issue_toJSON T c = Inr (JString ''XRP'')"
      using pc [of "[]"] cj True by (simp add: Issue_toJSON_def)
    moreover have "Issue_from T (Json (JString ''XRP'')) = Inr c"
      using fc True by (simp add: assertXrpIsValid_def)
    ultimately show ?thesis using b by blast
  next
    case False
    with p r1 cj obtain i p2 where
      r2: "BinaryParser_read 20 p1 = Inr (i, p2)" and b: "bytes = c @ i"
      by (auto simp add: Issue_fromParser_def split: sum.splits prod.splits)
    from r2 have li: "length i = 20" by (auto simp add: read_Inr)
    have pa: "st_fromParser (AccountID T) i = Inr (i, [])"
      using ra li read_exact [of i 20 "[]"] by (simp add: reads_width_def)
    from json_roundtripD [OF ja pa] obtain ij where
      ij: "st_toJSON (AccountID T) i = Inr ij" and fa: "st_from (AccountID T) ij = Inr i"
      by blast
    have "Issue_toJSON T (c @ i) = Inr (JObject [(''currency'', cj), (''issuer'', ij)])"
      using pc [of i] cj False pa ij by (simp add: Issue_toJSON_def)
    moreover have
      "Issue_from T (Json (JObject [(''currency'', cj), (''issuer'', ij)])) = Inr (c @ i)"
      using fc fa by (subst Issue_from_object) simp
    ultimately show ?thesis using b by blast
  qed
qed

section \<open>The instance meets what the spec says of the classes\<close>

lemma hex_value_hex_char: "n < 16 \<Longrightarrow> hex_value (hex_char n) = Some n"
  by (auto simp add: hex_value_def hex_char_def Let_def)

lemma byte_of_nibbles: "(of_nat (16 * (unat b div 16) + unat b mod 16) :: byte) = b"
  by simp

lemma hex_bytes_hex_of: "hex_bytes (hex_of bytes) = Some bytes"
proof (induction bytes)
  case Nil
  then show ?case by (simp add: hex_of_def)
next
  case (Cons b bytes)
  have "unat b < 2 ^ 8"
    using unsigned_less [of b] by simp
  then have "unat b div 16 < 16"
    by simp
  with Cons show ?case
    using byte_of_nibbles [of b]
    by (simp add: hex_of_def hex_value_hex_char del: of_nat_add of_nat_mult)
qed

lemma length_hex_of: "length (hex_of bytes) = 2 * length bytes"
  by (induction bytes) (simp_all add: hex_of_def)

lemma hash160_from_hex_of:
  "length bytes = 20 \<Longrightarrow> hash160_from (JString (hex_of bytes)) = Inr bytes"
  by (simp add: hex_bytes_hex_of)

lemma hash160_from_length: "hash160_from v = Inr bytes \<Longrightarrow> length bytes = 20"
  by (cases v) (auto split: option.splits if_splits)

lemma currency_from_length: "currency_from v = Inr bytes \<Longrightarrow> length bytes = 20"
  by (cases v)
    (auto split: if_splits dest: hash160_from_length simp del: hash160_from.simps)

lemma currency_from_hex_of:
  assumes "length bytes = 20" and "bytes \<noteq> replicate 20 0"
  shows "currency_from (JString (hex_of bytes)) = Inr bytes"
proof -
  have "length (hex_of bytes) = 40"
    using assms(1) by (simp add: length_hex_of)
  then have "hex_of bytes \<noteq> ''XRP''" and "length (hex_of bytes) \<noteq> 3"
    by auto
  then show ?thesis
    using assms(1) by (simp add: hash160_from_hex_of del: hash160_from.simps)
qed

lemma from_width_example_AccountID: "from_width 20 example_AccountID"
  by (auto simp add: from_width_def example_AccountID_def dest: hash160_from_length)

lemma from_width_example_Currency: "from_width 20 example_Currency"
  by (auto simp add: from_width_def example_Currency_def dest: currency_from_length)

lemma reads_width_example_AccountID: "reads_width 20 example_AccountID"
  by (simp add: reads_width_def example_AccountID_def)

lemma reads_width_example_Currency: "reads_width 20 example_Currency"
  by (simp add: reads_width_def example_Currency_def)

lemma json_roundtrip_example_AccountID: "json_roundtrip example_AccountID"
  by (auto simp add: json_roundtrip_def example_AccountID_def read_Inr hash160_from_hex_of
      simp del: hash160_from.simps)

lemma json_roundtrip_example_Currency: "json_roundtrip example_Currency"
  by (auto simp add: json_roundtrip_def example_Currency_def read_Inr currency_from_hex_of
      simp del: currency_from.simps) simp

lemma json_roundtrip_Issue_class:
  assumes "reads_width 20 (Currency T)" and "reads_width 20 (AccountID T)"
    and "json_roundtrip (Currency T)" and "json_roundtrip (AccountID T)"
  shows "json_roundtrip (Issue_class T)"
  unfolding json_roundtrip_def Issue_class_def
  using Issue_roundtrip [OF assms] by simp

lemma example_types_simps:
  "AccountID example_types = example_AccountID"
  "Currency example_types = example_Currency"
  by (simp_all add: example_types_def)

lemma json_roundtrip_example_IssuedCurrency: "json_roundtrip (IssuedCurrency example_types)"
  unfolding example_types_def
  by (simp add: json_roundtrip_Issue_class reads_width_example_AccountID
      reads_width_example_Currency json_roundtrip_example_AccountID
      json_roundtrip_example_Currency)

section \<open>Issue: widths and JSON form\<close>

text \<open>
  C6, as the code has it. A JSON input that \<open>Issue.from\<close> accepts is the string \<open>XRP\<close>,
  and the value is the 20 bytes of the currency, or an object with the keys \<open>currency\<close>
  and \<open>issuer\<close>, and the value is the 20 bytes of the currency followed by the 20 bytes
  of the issuer, whatever the currency is. \<open>Issue.toJSON\<close> returns the string \<open>XRP\<close>
  when the JSON form of the leading currency is \<open>XRP\<close>, and an object with the keys
  \<open>currency\<close> and \<open>issuer\<close> otherwise. (That a currency and an account have 20 bytes
  is what the spec says of the two classes.)
\<close>

theorem Issue_widths:
  assumes "from_width 20 (Currency T)" and "from_width 20 (AccountID T)"
  shows "(Issue_from T (Json j) = Inr bytes \<longrightarrow>
            (j = JString ''XRP'' \<and> st_from (Currency T) (JString ''XRP'') = Inr bytes \<and>
             length bytes = 20)
          \<or> (\<exists>entries c i. j = JObject entries \<and>
                set (map fst entries) = {''currency'', ''issuer''} \<and>
                st_from (Currency T) (property j ''currency'') = Inr c \<and>
                st_from (AccountID T) (property j ''issuer'') = Inr i \<and>
                bytes = c @ i \<and> length c = 20 \<and> length i = 20))
       \<and> (Issue_toJSON T bytes' = Inr j' \<longrightarrow>
            (\<exists>c rest cj. st_fromParser (Currency T) bytes' = Inr (c, rest) \<and>
               st_toJSON (Currency T) c = Inr cj \<and>
               (if cj = JString ''XRP'' then j' = JString ''XRP''
                else \<exists>ij. j' = JObject [(''currency'', cj), (''issuer'', ij)])))"
proof (intro conjI impI)
  assume a: "Issue_from T (Json j) = Inr bytes"
  from Issue_from_accepts [OF a]
  consider s where "j = JString s" | entries where "j = JObject entries"
    by blast
  then show "(j = JString ''XRP'' \<and> st_from (Currency T) (JString ''XRP'') = Inr bytes \<and>
             length bytes = 20)
          \<or> (\<exists>entries c i. j = JObject entries \<and>
                set (map fst entries) = {''currency'', ''issuer''} \<and>
                st_from (Currency T) (property j ''currency'') = Inr c \<and>
                st_from (AccountID T) (property j ''issuer'') = Inr i \<and>
                bytes = c @ i \<and> length c = 20 \<and> length i = 20)"
  proof cases
    case 1
    with a have "s = ''XRP''" and "st_from (Currency T) (JString ''XRP'') = Inr bytes"
      by (auto simp add: assertXrpIsValid_def split: if_splits sum.splits)
    with assms(1) 1 show ?thesis
      by (auto simp add: from_width_def)
  next
    case 2
    from a obtain c i where
      k: "map fst entries = [''currency'', ''issuer''] \<or>
          map fst entries = [''issuer'', ''currency'']"
      and c: "st_from (Currency T) (property (JObject entries) ''currency'') = Inr c"
      and i: "st_from (AccountID T) (property (JObject entries) ''issuer'') = Inr i"
      and b: "bytes = c @ i"
      unfolding 2 Issue_from_object by (auto split: if_splits sum.splits)
    from k have "set (map fst entries) = {''currency'', ''issuer''}"
      by auto
    moreover from assms c i have "length c = 20" "length i = 20"
      by (auto simp add: from_width_def)
    ultimately show ?thesis
      using 2 c i b by blast
  qed
next
  assume "Issue_toJSON T bytes' = Inr j'"
  from Issue_toJSON_cases [OF this]
  show "\<exists>c rest cj. st_fromParser (Currency T) bytes' = Inr (c, rest) \<and>
          st_toJSON (Currency T) c = Inr cj \<and>
          (if cj = JString ''XRP'' then j' = JString ''XRP''
           else \<exists>ij. j' = JObject [(''currency'', cj), (''issuer'', ij)])"
    by (auto split: if_splits)
qed

lemma example_Issue_from_USD:
  "Issue_from example_types
     (Json (JObject [(''currency'', JString ''USD''),
                     (''issuer'', JString ''0101010101010101010101010101010101010101'')])) =
   Inr (replicate 12 0 @ [0x55, 0x53, 0x44] @ replicate 5 0 @ replicate 20 1)"
  by code_simp

lemma example_Issue_toJSON_USD:
  "Issue_toJSON example_types
     (replicate 12 0 @ [0x55, 0x53, 0x44] @ replicate 5 0 @ replicate 20 1) =
   Inr (JObject [(''currency'', JString ''0000000000000000000000005553440000000000''),
                 (''issuer'', JString ''0101010101010101010101010101010101010101'')])"
  by code_simp

theorem Issue_widths_witness:
  "from_width 20 (Currency example_types) \<and> from_width 20 (AccountID example_types)
   \<and> Issue_from example_types
       (Json (JObject [(''currency'', JString ''USD''),
                       (''issuer'', JString ''0101010101010101010101010101010101010101'')])) =
     Inr (replicate 12 0 @ [0x55, 0x53, 0x44] @ replicate 5 0 @ replicate 20 1)
   \<and> length (replicate 12 0 @ [0x55, 0x53, 0x44] @ replicate 5 0 @ replicate 20 1 :: Buffer) = 40
   \<and> Issue_toJSON example_types
       (replicate 12 0 @ [0x55, 0x53, 0x44] @ replicate 5 0 @ replicate 20 1) =
     Inr (JObject [(''currency'', JString ''0000000000000000000000005553440000000000''),
                   (''issuer'', JString ''0101010101010101010101010101010101010101'')])"
  using Issue_widths [of example_types
      "JObject [(''currency'', JString ''USD''),
                (''issuer'', JString ''0101010101010101010101010101010101010101'')]"
      "replicate 12 0 @ [0x55, 0x53, 0x44] @ replicate 5 0 @ replicate 20 1"
      "replicate 12 0 @ [0x55, 0x53, 0x44] @ replicate 5 0 @ replicate 20 1"
      "JObject [(''currency'', JString ''0000000000000000000000005553440000000000''),
                (''issuer'', JString ''0101010101010101010101010101010101010101'')]"]
    from_width_example_Currency from_width_example_AccountID
    example_Issue_from_USD example_Issue_toJSON_USD
  by (simp add: example_types_simps)

text \<open>
  The claim as it stands fails for an object whose currency is \<open>XRP\<close>: \<open>Issue.from\<close>
  accepts it and the value has 40 bytes, while \<open>Issue.toJSON\<close> of that value is the
  string \<open>XRP\<close>.
\<close>

theorem Issue_XRP_with_issuer_counterexample:
  "Issue_from example_types
     (Json (JObject [(''currency'', JString ''XRP''),
                     (''issuer'', JString ''0101010101010101010101010101010101010101'')])) =
     Inr (replicate 20 0 @ replicate 20 1)
   \<and> length (replicate 20 0 @ replicate 20 1 :: Buffer) = 40
   \<and> Issue_toJSON example_types (replicate 20 0 @ replicate 20 1) = Inr (JString ''XRP'')"
  by code_simp

section \<open>XChainBridge: the three loops over TYPE_ORDER\<close>

lemma parse_items_TYPE_ORDER_I:
  assumes "st_fromParser (AccountID T) p1 = Inr (ld, p2)"
    and "st_fromParser (IssuedCurrency T) p2 = Inr (li, m2 # p4)"
    and "st_fromParser (AccountID T) p4 = Inr (idr, p5)"
    and "st_fromParser (IssuedCurrency T) p5 = Inr (ii, rest)"
  shows "parse_items T TYPE_ORDER (m1 # p1) [] = Inr ([[0x14], ld, li, [0x14], idr, ii], rest)"
  using assms by (simp add: TYPE_ORDER_def skip_Cons)

lemma parse_items_TYPE_ORDER_D:
  assumes "parse_items T TYPE_ORDER parser [] = Inr (bytes, rest)"
  shows "\<exists>m1 p1 ld p2 li m2 p4 idr p5 ii.
        parser = m1 # p1 \<and>
        st_fromParser (AccountID T) p1 = Inr (ld, p2) \<and>
        st_fromParser (IssuedCurrency T) p2 = Inr (li, m2 # p4) \<and>
        st_fromParser (AccountID T) p4 = Inr (idr, p5) \<and>
        st_fromParser (IssuedCurrency T) p5 = Inr (ii, rest) \<and>
        bytes = [[0x14], ld, li, [0x14], idr, ii]"
  using assms
  by (auto simp add: TYPE_ORDER_def skip_Inr split: sum.splits prod.splits)

lemma json_items_TYPE_ORDER_I:
  assumes "st_fromParser (AccountID T) p1 = Inr (ld, p2)"
    and "st_fromParser (IssuedCurrency T) p2 = Inr (li, m2 # p4)"
    and "st_fromParser (AccountID T) p4 = Inr (idr, p5)"
    and "st_fromParser (IssuedCurrency T) p5 = Inr (ii, rest)"
    and "st_toJSON (AccountID T) ld = Inr j1"
    and "st_toJSON (IssuedCurrency T) li = Inr j2"
    and "st_toJSON (AccountID T) idr = Inr j3"
    and "st_toJSON (IssuedCurrency T) ii = Inr j4"
  shows "json_items T TYPE_ORDER (m1 # p1) [] =
     Inr [(''LockingChainDoor'', j1), (''LockingChainIssue'', j2),
          (''IssuingChainDoor'', j3), (''IssuingChainIssue'', j4)]"
  using assms by (simp add: TYPE_ORDER_def skip_Cons)


lemma from_items_TYPE_ORDER:
  "from_items T v TYPE_ORDER [] = Inr bytes \<longleftrightarrow>
     (\<exists>ld li idr ii.
        st_from (AccountID T) (property v ''LockingChainDoor'') = Inr ld \<and>
        st_from (IssuedCurrency T) (property v ''LockingChainIssue'') = Inr li \<and>
        st_from (AccountID T) (property v ''IssuingChainDoor'') = Inr idr \<and>
        st_from (IssuedCurrency T) (property v ''IssuingChainIssue'') = Inr ii \<and>
        bytes = [[0x14], ld, li, [0x14], idr, ii])"
  by (auto simp add: TYPE_ORDER_def split: sum.splits)

lemma isXChainBridgeObject_sorted:
  "isXChainBridgeObject v = Inr True \<longleftrightarrow>
     (\<exists>ks. Object_keys v = Inr ks \<and>
        sort ks = [''IssuingChainDoor'', ''IssuingChainIssue'',
                   ''LockingChainDoor'', ''LockingChainIssue''])"
proof (cases "Object_keys v")
  case (Inl e)
  then show ?thesis by (simp add: isXChainBridgeObject_def)
next
  case (Inr ks)
  then show ?thesis
    using list4_nth [of "sort ks" "''IssuingChainDoor''" "''IssuingChainIssue''"
        "''LockingChainDoor''" "''LockingChainIssue''"]
    by (simp add: isXChainBridgeObject_def Let_def)
qed

lemma sort_TYPE_ORDER_names:
  "sort [''LockingChainDoor'', ''LockingChainIssue'', ''IssuingChainDoor'', ''IssuingChainIssue''] =
     [''IssuingChainDoor'', ''IssuingChainIssue'', ''LockingChainDoor'', ''LockingChainIssue'']"
  by (simp add: less_eq_char_def less_char_def)




lemma XChainBridge_from_I:
  assumes "st_from (AccountID T) j1 = Inr ld"
    and "st_from (IssuedCurrency T) j2 = Inr li"
    and "st_from (AccountID T) j3 = Inr idr"
    and "st_from (IssuedCurrency T) j4 = Inr ii"
  shows "XChainBridge_from T
      (Json (JObject [(''LockingChainDoor'', j1), (''LockingChainIssue'', j2),
                      (''IssuingChainDoor'', j3), (''IssuingChainIssue'', j4)])) =
     Inr ([0x14] @ ld @ li @ [0x14] @ idr @ ii)"
proof -
  let ?v = "JObject [(''LockingChainDoor'', j1), (''LockingChainIssue'', j2),
                     (''IssuingChainDoor'', j3), (''IssuingChainIssue'', j4)]"
  have g: "isXChainBridgeObject ?v = Inr True"
    unfolding isXChainBridgeObject_sorted using sort_TYPE_ORDER_names by simp
  have "from_items T ?v TYPE_ORDER [] = Inr [[0x14], ld, li, [0x14], idr, ii]"
    unfolding from_items_TYPE_ORDER using assms by simp
  with g show ?thesis by simp
qed

section \<open>Round trip from bytes to JSON and back\<close>

text \<open>
  C4. Let \<open>b\<close> be a canonical encoding of an Issue: \<open>Issue.fromParser\<close> started on
  \<open>b\<close> reads all of it and its value has the bytes \<open>b\<close>. Then \<open>toJSON\<close> of that value
  succeeds and \<open>Issue.from\<close> builds \<open>b\<close> again from the JSON. The same holds of an
  XChainBridge. (That \<open>Currency\<close> and \<open>AccountID\<close> read 20 bytes, and that what these
  classes and \<open>IssuedCurrency\<close> parse goes to JSON and back, is what the spec says of
  them.)
\<close>

theorem bytes_json_bytes_roundtrip:
  assumes "reads_width 20 (Currency T)" and "reads_width 20 (AccountID T)"
    and "json_roundtrip (Currency T)" and "json_roundtrip (AccountID T)"
    and "json_roundtrip (IssuedCurrency T)"
  shows "(Issue_fromParser T b = Inr (b, []) \<longrightarrow>
            (\<exists>j. Issue_toJSON T b = Inr j \<and> Issue_from T (Json j) = Inr b))
       \<and> (XChainBridge_fromParser T b' = Inr (b', []) \<longrightarrow>
            (\<exists>j. XChainBridge_toJSON T b' = Inr j \<and> XChainBridge_from T (Json j) = Inr b'))"
proof (intro conjI impI)
  assume "Issue_fromParser T b = Inr (b, [])"
  from Issue_roundtrip [OF assms(1-4) this]
  show "\<exists>j. Issue_toJSON T b = Inr j \<and> Issue_from T (Json j) = Inr b" .
next
  assume p: "XChainBridge_fromParser T b' = Inr (b', [])"
  then obtain bs where ps: "parse_items T TYPE_ORDER b' [] = Inr (bs, [])" and c: "concat bs = b'"
    by (auto simp add: XChainBridge_fromParser_def split: sum.splits prod.splits)
  from parse_items_TYPE_ORDER_D [OF ps] obtain m1 p1 ld p2 li m2 p4 idr p5 ii where
    b': "b' = m1 # p1"
    and q1: "st_fromParser (AccountID T) p1 = Inr (ld, p2)"
    and q2: "st_fromParser (IssuedCurrency T) p2 = Inr (li, m2 # p4)"
    and q3: "st_fromParser (AccountID T) p4 = Inr (idr, p5)"
    and q4: "st_fromParser (IssuedCurrency T) p5 = Inr (ii, [])"
    and bs: "bs = [[0x14], ld, li, [0x14], idr, ii]"
    by blast
  from json_roundtripD [OF assms(4) q1] obtain j1 where
    t1: "st_toJSON (AccountID T) ld = Inr j1" and f1: "st_from (AccountID T) j1 = Inr ld"
    by blast
  from json_roundtripD [OF assms(5) q2] obtain j2 where
    t2: "st_toJSON (IssuedCurrency T) li = Inr j2" and f2: "st_from (IssuedCurrency T) j2 = Inr li"
    by blast
  from json_roundtripD [OF assms(4) q3] obtain j3 where
    t3: "st_toJSON (AccountID T) idr = Inr j3" and f3: "st_from (AccountID T) j3 = Inr idr"
    by blast
  from json_roundtripD [OF assms(5) q4] obtain j4 where
    t4: "st_toJSON (IssuedCurrency T) ii = Inr j4" and f4: "st_from (IssuedCurrency T) j4 = Inr ii"
    by blast
  let ?j = "JObject [(''LockingChainDoor'', j1), (''LockingChainIssue'', j2),
                     (''IssuingChainDoor'', j3), (''IssuingChainIssue'', j4)]"
  have "XChainBridge_toJSON T b' = Inr ?j"
    unfolding XChainBridge_toJSON_def b'
    using json_items_TYPE_ORDER_I [OF q1 q2 q3 q4 t1 t2 t3 t4] by simp
  moreover have "XChainBridge_from T (Json ?j) = Inr b'"
    using XChainBridge_from_I [OF f1 f2 f3 f4] c bs by simp
  ultimately show "\<exists>j. XChainBridge_toJSON T b' = Inr j \<and> XChainBridge_from T (Json j) = Inr b'"
    by blast
qed

lemma example_Issue_fromParser:
  "Issue_fromParser example_types
     (replicate 12 0 @ [0x55, 0x53, 0x44] @ replicate 5 0 @ replicate 20 1) =
   Inr (replicate 12 0 @ [0x55, 0x53, 0x44] @ replicate 5 0 @ replicate 20 1, [])"
  by code_simp

lemma example_XChainBridge_fromParser:
  "XChainBridge_fromParser example_types
     (0x14 # replicate 20 1 @ replicate 20 0 @ 0x14 # replicate 20 2 @ replicate 20 3 @ replicate 20 4) =
   Inr (0x14 # replicate 20 1 @ replicate 20 0 @ 0x14 # replicate 20 2 @ replicate 20 3 @ replicate 20 4, [])"
  by code_simp

theorem bytes_json_bytes_roundtrip_witness:
  "reads_width 20 (Currency example_types) \<and> reads_width 20 (AccountID example_types)
   \<and> json_roundtrip (Currency example_types) \<and> json_roundtrip (AccountID example_types)
   \<and> json_roundtrip (IssuedCurrency example_types)
   \<and> Issue_fromParser example_types
        (replicate 12 0 @ [0x55, 0x53, 0x44] @ replicate 5 0 @ replicate 20 1) =
      Inr (replicate 12 0 @ [0x55, 0x53, 0x44] @ replicate 5 0 @ replicate 20 1, [])
   \<and> (\<exists>j. Issue_toJSON example_types
              (replicate 12 0 @ [0x55, 0x53, 0x44] @ replicate 5 0 @ replicate 20 1) = Inr j \<and>
            Issue_from example_types (Json j) =
              Inr (replicate 12 0 @ [0x55, 0x53, 0x44] @ replicate 5 0 @ replicate 20 1))
   \<and> XChainBridge_fromParser example_types
        (0x14 # replicate 20 1 @ replicate 20 0 @ 0x14 # replicate 20 2 @ replicate 20 3 @ replicate 20 4) =
      Inr (0x14 # replicate 20 1 @ replicate 20 0 @ 0x14 # replicate 20 2 @ replicate 20 3 @ replicate 20 4, [])
   \<and> (\<exists>j. XChainBridge_toJSON example_types
              (0x14 # replicate 20 1 @ replicate 20 0 @ 0x14 # replicate 20 2 @ replicate 20 3 @ replicate 20 4) = Inr j \<and>
            XChainBridge_from example_types (Json j) =
              Inr (0x14 # replicate 20 1 @ replicate 20 0 @ 0x14 # replicate 20 2 @ replicate 20 3 @ replicate 20 4))"
proof -
  have h: "reads_width 20 (Currency example_types)" "reads_width 20 (AccountID example_types)"
    "json_roundtrip (Currency example_types)" "json_roundtrip (AccountID example_types)"
    "json_roundtrip (IssuedCurrency example_types)"
    by (simp_all add: example_types_simps reads_width_example_Currency
        reads_width_example_AccountID json_roundtrip_example_Currency
        json_roundtrip_example_AccountID json_roundtrip_example_IssuedCurrency)
  from bytes_json_bytes_roundtrip [OF h,
      of "replicate 12 0 @ [0x55, 0x53, 0x44] @ replicate 5 0 @ replicate 20 1"
         "0x14 # replicate 20 1 @ replicate 20 0 @ 0x14 # replicate 20 2 @ replicate 20 3 @ replicate 20 4"]
    example_Issue_fromParser example_XChainBridge_fromParser h
  show ?thesis by blast
qed


section \<open>XChainBridge: layout and JSON keys\<close>







section \<open>XChainBridge: the marker bytes are not checked\<close>

text \<open>
  C9. Take a buffer that is a bridge but for the two bytes that stand before the
  accounts: any byte \<open>m1\<close>, 20 bytes of an account, an issue, any byte \<open>m2\<close>, 20 bytes
  of an account, an issue. \<open>XChainBridge.fromParser\<close> reads it without error, and the
  bytes of its value have 0x14 in the two places; when \<open>m1\<close> or \<open>m2\<close> is not 0x14
  the bytes of the value differ from the buffer. \<open>XChainBridge.toJSON\<close> of a value
  with these bytes gives the JSON of the four parts, whatever \<open>m1\<close> and \<open>m2\<close> are.
\<close>

theorem XChainBridge_markers_unchecked:
  assumes "reads_width 20 (AccountID T)"
    and "length ld = 20" and "length idr = 20"
    and "st_fromParser (IssuedCurrency T) (li @ m2 # idr @ ii) = Inr (li, m2 # idr @ ii)"
    and "st_fromParser (IssuedCurrency T) ii = Inr (ii, [])"
  shows "XChainBridge_fromParser T (m1 # ld @ li @ m2 # idr @ ii) =
           Inr (0x14 # ld @ li @ 0x14 # idr @ ii, [])
       \<and> (m1 \<noteq> 0x14 \<or> m2 \<noteq> 0x14 \<longrightarrow>
            0x14 # ld @ li @ 0x14 # idr @ ii \<noteq> m1 # ld @ li @ m2 # idr @ ii)
       \<and> (st_toJSON (AccountID T) ld = Inr j1 \<and> st_toJSON (IssuedCurrency T) li = Inr j2 \<and>
          st_toJSON (AccountID T) idr = Inr j3 \<and> st_toJSON (IssuedCurrency T) ii = Inr j4 \<longrightarrow>
            XChainBridge_toJSON T (m1 # ld @ li @ m2 # idr @ ii) =
              Inr (JObject [(''LockingChainDoor'', j1), (''LockingChainIssue'', j2),
                            (''IssuingChainDoor'', j3), (''IssuingChainIssue'', j4)]))"
proof -
  have q1: "st_fromParser (AccountID T) (ld @ li @ m2 # idr @ ii) = Inr (ld, li @ m2 # idr @ ii)"
    using assms(1,2) by (simp add: reads_width_def read_exact)
  have q3: "st_fromParser (AccountID T) (idr @ ii) = Inr (idr, ii)"
    using assms(1,3) by (simp add: reads_width_def read_exact)
  note q2 = assms(4) and q4 = assms(5)
  have "XChainBridge_fromParser T (m1 # ld @ li @ m2 # idr @ ii) =
           Inr (0x14 # ld @ li @ 0x14 # idr @ ii, [])"
    unfolding XChainBridge_fromParser_def
    using parse_items_TYPE_ORDER_I [OF q1 q2 q3 q4, of m1] by simp
  moreover have "m1 \<noteq> 0x14 \<or> m2 \<noteq> 0x14 \<longrightarrow>
            0x14 # ld @ li @ 0x14 # idr @ ii \<noteq> m1 # ld @ li @ m2 # idr @ ii"
    by auto
  moreover have "st_toJSON (AccountID T) ld = Inr j1 \<and> st_toJSON (IssuedCurrency T) li = Inr j2 \<and>
          st_toJSON (AccountID T) idr = Inr j3 \<and> st_toJSON (IssuedCurrency T) ii = Inr j4 \<longrightarrow>
            XChainBridge_toJSON T (m1 # ld @ li @ m2 # idr @ ii) =
              Inr (JObject [(''LockingChainDoor'', j1), (''LockingChainIssue'', j2),
                            (''IssuingChainDoor'', j3), (''IssuingChainIssue'', j4)])"
  proof
    assume t: "st_toJSON (AccountID T) ld = Inr j1 \<and> st_toJSON (IssuedCurrency T) li = Inr j2 \<and>
          st_toJSON (AccountID T) idr = Inr j3 \<and> st_toJSON (IssuedCurrency T) ii = Inr j4"
    then have t1: "st_toJSON (AccountID T) ld = Inr j1"
      and t2: "st_toJSON (IssuedCurrency T) li = Inr j2"
      and t3: "st_toJSON (AccountID T) idr = Inr j3"
      and t4: "st_toJSON (IssuedCurrency T) ii = Inr j4"
      by simp_all
    show "XChainBridge_toJSON T (m1 # ld @ li @ m2 # idr @ ii) =
              Inr (JObject [(''LockingChainDoor'', j1), (''LockingChainIssue'', j2),
                            (''IssuingChainDoor'', j3), (''IssuingChainIssue'', j4)])"
      unfolding XChainBridge_toJSON_def
      using json_items_TYPE_ORDER_I [OF q1 q2 q3 q4 t1 t2 t3 t4, of m1] by simp
  qed
  ultimately show ?thesis by blast
qed

lemma example_issue_parses:
  "st_fromParser (IssuedCurrency example_types)
     (replicate 20 0 @ 0xFF # replicate 20 2 @ replicate 20 3 @ replicate 20 4) =
   Inr (replicate 20 0, 0xFF # replicate 20 2 @ replicate 20 3 @ replicate 20 4)"
  "st_fromParser (IssuedCurrency example_types) (replicate 20 3 @ replicate 20 4) =
   Inr (replicate 20 3 @ replicate 20 4, [])"
  by code_simp+

lemma example_part_json:
  "st_toJSON (AccountID example_types) (replicate 20 1) =
     Inr (JString ''0101010101010101010101010101010101010101'')"
  "st_toJSON (IssuedCurrency example_types) (replicate 20 0) = Inr (JString ''XRP'')"
  "st_toJSON (AccountID example_types) (replicate 20 2) =
     Inr (JString ''0202020202020202020202020202020202020202'')"
  "st_toJSON (IssuedCurrency example_types) (replicate 20 3 @ replicate 20 4) =
     Inr (JObject [(''currency'', JString ''0303030303030303030303030303030303030303''),
                   (''issuer'', JString ''0404040404040404040404040404040404040404'')])"
  by code_simp+

theorem XChainBridge_markers_unchecked_witness:
  "reads_width 20 (AccountID example_types)
   \<and> XChainBridge_fromParser example_types
        (0x00 # replicate 20 1 @ replicate 20 0 @ 0xFF # replicate 20 2 @
         replicate 20 3 @ replicate 20 4) =
      Inr (0x14 # replicate 20 1 @ replicate 20 0 @ 0x14 # replicate 20 2 @
           replicate 20 3 @ replicate 20 4, [])
   \<and> (0x14 # replicate 20 1 @ replicate 20 0 @ 0x14 # replicate 20 2 @
        replicate 20 3 @ replicate 20 4 :: Buffer) \<noteq>
      0x00 # replicate 20 1 @ replicate 20 0 @ 0xFF # replicate 20 2 @
        replicate 20 3 @ replicate 20 4
   \<and> XChainBridge_toJSON example_types
        (0x00 # replicate 20 1 @ replicate 20 0 @ 0xFF # replicate 20 2 @
         replicate 20 3 @ replicate 20 4) =
      Inr (JObject
        [(''LockingChainDoor'', JString ''0101010101010101010101010101010101010101''),
         (''LockingChainIssue'', JString ''XRP''),
         (''IssuingChainDoor'', JString ''0202020202020202020202020202020202020202''),
         (''IssuingChainIssue'',
          JObject [(''currency'', JString ''0303030303030303030303030303030303030303''),
                   (''issuer'', JString ''0404040404040404040404040404040404040404'')])])"
proof -
  have h1: "reads_width 20 (AccountID example_types)"
    by (simp add: example_types_simps reads_width_example_AccountID)
  have l1: "length (replicate 20 1 :: Buffer) = 20" and l2: "length (replicate 20 2 :: Buffer) = 20"
    by simp_all
  note th = XChainBridge_markers_unchecked [OF h1 l1 l2 example_issue_parses,
      of "0x00"
         "JString ''0101010101010101010101010101010101010101''"
         "JString ''XRP''"
         "JString ''0202020202020202020202020202020202020202''"
         "JObject [(''currency'', JString ''0303030303030303030303030303030303030303''),
                   (''issuer'', JString ''0404040404040404040404040404040404040404'')]"]
  have m: "(0x00 :: byte) \<noteq> 0x14 \<or> (0xFF :: byte) \<noteq> 0x14"
    by simp
  note c1 = conjunct1 [OF th]
  note c2 = mp [OF conjunct1 [OF conjunct2 [OF th]] m]
  note c3 = mp [OF conjunct2 [OF conjunct2 [OF th]]]
  have c3': "XChainBridge_toJSON example_types
        (0x00 # replicate 20 1 @ replicate 20 0 @ 0xFF # replicate 20 2 @
         replicate 20 3 @ replicate 20 4) =
      Inr (JObject
        [(''LockingChainDoor'', JString ''0101010101010101010101010101010101010101''),
         (''LockingChainIssue'', JString ''XRP''),
         (''IssuingChainDoor'', JString ''0202020202020202020202020202020202020202''),
         (''IssuingChainIssue'',
          JObject [(''currency'', JString ''0303030303030303030303030303030303030303''),
                   (''issuer'', JString ''0404040404040404040404040404040404040404'')])])"
    by (rule c3) (intro conjI example_part_json)
  show ?thesis
    by (intro conjI h1 c1 c2 c3')
qed

section \<open>The facade\<close>

text \<open>The bytes of \<open>UInt64.from\<close> spell the number when read big-endian.\<close>

lemma foldl_big_endian:
  "foldl (\<lambda>acc b. acc * 256 + uint b) a (bytes :: Buffer) = a * 256 ^ length bytes + big_endian bytes"
proof (induction bytes arbitrary: a)
  case Nil
  then show ?case by (simp add: big_endian_def)
next
  case (Cons b bytes)
  have e: "big_endian (b # bytes) = uint b * 256 ^ length bytes + big_endian bytes"
    using Cons.IH [of "uint b"] by (simp add: big_endian_def)
  have "foldl (\<lambda>acc b. acc * 256 + uint b) a (b # bytes) =
        foldl (\<lambda>acc b. acc * 256 + uint b) (a * 256 + uint b) bytes"
    by simp
  also have "\<dots> = (a * 256 + uint b) * 256 ^ length bytes + big_endian bytes"
    by (rule Cons.IH)
  finally show ?case
    using e by (simp add: algebra_simps)
qed

lemma big_endian_Cons:
  "big_endian (b # bytes) = uint b * 256 ^ length bytes + big_endian bytes"
  using foldl_big_endian [of "uint b" bytes] by (simp add: big_endian_def)

lemma big_endian_digits:
  "0 \<le> n \<Longrightarrow>
   big_endian (map (\<lambda>i. of_int (n div 256 ^ (k - Suc i))) [0..<k]) = n mod 256 ^ k"
proof (induction k)
  case 0
  then show ?case by (simp add: big_endian_def)
next
  case (Suc k)
  have m: "map (\<lambda>i. (of_int (n div 256 ^ (Suc k - Suc i)) :: byte)) [0..<Suc k] =
        of_int (n div 256 ^ k) # map (\<lambda>i. of_int (n div 256 ^ (k - Suc i))) [0..<k]"
    by (simp add: upt_rec [of 0] map_Suc_upt [symmetric] del: upt_Suc)
  have u: "uint (of_int (n div 256 ^ k) :: byte) = n div 256 ^ k mod 256"
    by (simp add: uint_word_of_int take_bit_eq_mod)
  have "n mod 256 ^ Suc k = 256 ^ k * (n div 256 ^ k mod 256) + n mod 256 ^ k"
    using zmod_zmult2_eq [of 256 n "256 ^ k"] by (simp add: mult.commute)
  with Suc m u show ?case
    by (simp add: big_endian_Cons del: upt_Suc)
qed

lemma big_endian_UInt64:
  assumes "UInt64_from n = Inr bytes"
  shows "0 \<le> n \<and> n < 2 ^ 64 \<and> length bytes = 8 \<and> big_endian bytes = n"
proof -
  from assms have r: "0 \<le> n" "n < 2 ^ 64"
    and b: "bytes = map (\<lambda>i. of_int (n div 256 ^ (8 - Suc i))) [0..<8]"
    by (auto simp add: UInt64_from_def split: if_splits)
  have "big_endian bytes = n mod 256 ^ 8"
    unfolding b using r(1) by (rule big_endian_digits)
  with r b show ?thesis by simp
qed

lemma lookup_fields_set:
  assumes "lookup_fields E tx = Inr fs"
  shows "set fs = {(f, v). \<exists>k. (k, v) \<in> set tx \<and> field_by_name E k = Some f}"
  using assms
proof (induction tx arbitrary: fs)
  case Nil
  then show ?case by simp
next
  case (Cons kv tx)
  obtain k v where kv: "kv = (k, v)" by (cases kv)
  from Cons.prems obtain f fs' where f: "field_by_name E k = Some f"
    and l: "lookup_fields E tx = Inr fs'" and fs: "fs = (f, v) # fs'"
    unfolding kv by (auto split: option.splits sum.splits)
  from Cons.IH [OF l] f fs show ?case
    unfolding kv by auto
qed

lemma set_canonical_order: "set (canonical_order E fs) = set fs"
  by (simp add: canonical_order_def)

lemma STObject_fields_set:
  assumes "STObject_fields E tx field_filter = Inr fs"
  shows "set fs =
     {(f, v). (\<exists>k. (k, v) \<in> set tx \<and> field_by_name E k = Some f) \<and> emitted field_filter f}"
proof -
  from assms obtain all_fields where l: "lookup_fields E tx = Inr all_fields"
    and fs: "fs = canonical_order E (filter (\<lambda>(f, v). emitted field_filter f) all_fields)"
    by (auto simp add: STObject_fields_def split: sum.splits)
  from lookup_fields_set [OF l] show ?thesis
    unfolding fs set_canonical_order by auto
qed

lemma serializeObject_signing:
  "serializeObject E tx \<lparr>prefix = p, suffix = s, signingFieldsOnly = Some True\<rparr> = Inr bytes \<longleftrightarrow>
     (\<exists>fs body. STObject_fields E tx (Some isSigningField) = Inr fs \<and>
        emit_fields E fs = Inr body \<and>
        bytes = (case p of None \<Rightarrow> [] | Some q \<Rightarrow> q) @ body @ (case s of None \<Rightarrow> [] | Some q \<Rightarrow> q))"
  by (auto simp add: serializeObject_def STObject_from_def BytesList_put_def BytesList_toBytes_def
      Let_def split: sum.splits option.splits)

text \<open>
  C1. On the two signing paths the fields that are emitted are those of the entries of
  the transaction whose definition has \<open>isSigningField\<close> and \<open>isSerialized\<close>, and no
  others: the bytes are the prefix, the encodings of exactly these fields in canonical
  order, and for multi-signing the account.
\<close>

theorem signing_paths_emit_signing_fields:
  "(signingData E tx p = Inr bytes \<longrightarrow>
      (\<exists>fs body.
         STObject_fields E tx (Some isSigningField) = Inr fs \<and>
         (\<forall>k v f. (k, v) \<in> set tx \<and> field_by_name E k = Some f \<longrightarrow>
            ((f, v) \<in> set fs \<longleftrightarrow> isSigningField f \<and> isSerialized f)) \<and>
         (\<forall>f v. (f, v) \<in> set fs \<longrightarrow> (\<exists>k. (k, v) \<in> set tx \<and> field_by_name E k = Some f)) \<and>
         emit_fields E fs = Inr body \<and>
         bytes = (case p of None \<Rightarrow> HashPrefix_transactionSig | Some q \<Rightarrow> q) @ body))
   \<and> (multiSigningData E tx a = Inr bytes' \<longrightarrow>
      (\<exists>fs body s.
         STObject_fields E tx (Some isSigningField) = Inr fs \<and>
         (\<forall>k v f. (k, v) \<in> set tx \<and> field_by_name E k = Some f \<longrightarrow>
            ((f, v) \<in> set fs \<longleftrightarrow> isSigningField f \<and> isSerialized f)) \<and>
         (\<forall>f v. (f, v) \<in> set fs \<longrightarrow> (\<exists>k. (k, v) \<in> set tx \<and> field_by_name E k = Some f)) \<and>
         emit_fields E fs = Inr body \<and>
         st_from (AccountID (types E)) a = Inr s \<and>
         bytes' = HashPrefix_transactionMultiSig @ body @ s))"
proof (intro conjI impI)
  assume "signingData E tx p = Inr bytes"
  then obtain fs body where f: "STObject_fields E tx (Some isSigningField) = Inr fs"
    and e: "emit_fields E fs = Inr body"
    and b: "bytes = (case p of None \<Rightarrow> HashPrefix_transactionSig | Some q \<Rightarrow> q) @ body"
    by (auto simp add: signingData_def serializeObject_signing Let_def)
  note s = STObject_fields_set [OF f]
  have "\<forall>k v f. (k, v) \<in> set tx \<and> field_by_name E k = Some f \<longrightarrow>
            ((f, v) \<in> set fs \<longleftrightarrow> isSigningField f \<and> isSerialized f)"
    unfolding s by (auto simp add: emitted_def)
  moreover have "\<forall>f v. (f, v) \<in> set fs \<longrightarrow> (\<exists>k. (k, v) \<in> set tx \<and> field_by_name E k = Some f)"
    unfolding s by auto
  ultimately show "\<exists>fs body.
         STObject_fields E tx (Some isSigningField) = Inr fs \<and>
         (\<forall>k v f. (k, v) \<in> set tx \<and> field_by_name E k = Some f \<longrightarrow>
            ((f, v) \<in> set fs \<longleftrightarrow> isSigningField f \<and> isSerialized f)) \<and>
         (\<forall>f v. (f, v) \<in> set fs \<longrightarrow> (\<exists>k. (k, v) \<in> set tx \<and> field_by_name E k = Some f)) \<and>
         emit_fields E fs = Inr body \<and>
         bytes = (case p of None \<Rightarrow> HashPrefix_transactionSig | Some q \<Rightarrow> q) @ body"
    using f e b by blast
next
  assume "multiSigningData E tx a = Inr bytes'"
  then obtain fs body acc where f: "STObject_fields E tx (Some isSigningField) = Inr fs"
    and e: "emit_fields E fs = Inr body"
    and a: "st_from (AccountID (types E)) a = Inr acc"
    and b: "bytes' = HashPrefix_transactionMultiSig @ body @ acc"
    by (auto simp add: multiSigningData_def serializeObject_signing split: sum.splits)
  note s = STObject_fields_set [OF f]
  have "\<forall>k v f. (k, v) \<in> set tx \<and> field_by_name E k = Some f \<longrightarrow>
            ((f, v) \<in> set fs \<longleftrightarrow> isSigningField f \<and> isSerialized f)"
    unfolding s by (auto simp add: emitted_def)
  moreover have "\<forall>f v. (f, v) \<in> set fs \<longrightarrow> (\<exists>k. (k, v) \<in> set tx \<and> field_by_name E k = Some f)"
    unfolding s by auto
  ultimately show "\<exists>fs body s.
         STObject_fields E tx (Some isSigningField) = Inr fs \<and>
         (\<forall>k v f. (k, v) \<in> set tx \<and> field_by_name E k = Some f \<longrightarrow>
            ((f, v) \<in> set fs \<longleftrightarrow> isSigningField f \<and> isSerialized f)) \<and>
         (\<forall>f v. (f, v) \<in> set fs \<longrightarrow> (\<exists>k. (k, v) \<in> set tx \<and> field_by_name E k = Some f)) \<and>
         emit_fields E fs = Inr body \<and>
         st_from (AccountID (types E)) a = Inr s \<and>
         bytes' = HashPrefix_transactionMultiSig @ body @ s"
    using f e a b by blast
qed

lemma example_signingData:
  "signingData example_env example_tx None =
     Inr [0x53, 0x54, 0x58, 0x00, 0x24, 0x00, 0x00, 0x00, 0x01, 0x73, 0x00]"
  by code_simp

lemma example_multiSigningData:
  "multiSigningData example_env example_tx example_account =
     Inr ([0x53, 0x4D, 0x54, 0x00] @ [0x24, 0x00, 0x00, 0x00, 0x01, 0x73, 0x00] @ replicate 20 2)"
  by code_simp

theorem signing_paths_emit_signing_fields_witness:
  "signingData example_env example_tx None =
     Inr [0x53, 0x54, 0x58, 0x00, 0x24, 0x00, 0x00, 0x00, 0x01, 0x73, 0x00]
   \<and> (\<exists>fs body.
         STObject_fields example_env example_tx (Some isSigningField) = Inr fs \<and>
         (\<forall>k v f. (k, v) \<in> set example_tx \<and> field_by_name example_env k = Some f \<longrightarrow>
            ((f, v) \<in> set fs \<longleftrightarrow> isSigningField f \<and> isSerialized f)) \<and>
         (\<forall>f v. (f, v) \<in> set fs \<longrightarrow>
            (\<exists>k. (k, v) \<in> set example_tx \<and> field_by_name example_env k = Some f)) \<and>
         emit_fields example_env fs = Inr body \<and>
         [0x53, 0x54, 0x58, 0x00, 0x24, 0x00, 0x00, 0x00, 0x01, 0x73, 0x00] =
           (case None of None \<Rightarrow> HashPrefix_transactionSig | Some q \<Rightarrow> q) @ body)
   \<and> multiSigningData example_env example_tx example_account =
     Inr ([0x53, 0x4D, 0x54, 0x00] @ [0x24, 0x00, 0x00, 0x00, 0x01, 0x73, 0x00] @ replicate 20 2)
   \<and> (\<exists>fs body s.
         STObject_fields example_env example_tx (Some isSigningField) = Inr fs \<and>
         (\<forall>k v f. (k, v) \<in> set example_tx \<and> field_by_name example_env k = Some f \<longrightarrow>
            ((f, v) \<in> set fs \<longleftrightarrow> isSigningField f \<and> isSerialized f)) \<and>
         (\<forall>f v. (f, v) \<in> set fs \<longrightarrow>
            (\<exists>k. (k, v) \<in> set example_tx \<and> field_by_name example_env k = Some f)) \<and>
         emit_fields example_env fs = Inr body \<and>
         st_from (AccountID (types example_env)) example_account = Inr s \<and>
         [0x53, 0x4D, 0x54, 0x00] @ [0x24, 0x00, 0x00, 0x00, 0x01, 0x73, 0x00] @ replicate 20 2 =
           HashPrefix_transactionMultiSig @ body @ s)"
proof -
  note th = signing_paths_emit_signing_fields [of example_env example_tx None
      "[0x53, 0x54, 0x58, 0x00, 0x24, 0x00, 0x00, 0x00, 0x01, 0x73, 0x00]" example_account
      "[0x53, 0x4D, 0x54, 0x00] @ [0x24, 0x00, 0x00, 0x00, 0x01, 0x73, 0x00] @ replicate 20 2"]
  note q1 = mp [OF conjunct1 [OF th] example_signingData]
  note q2 = mp [OF conjunct2 [OF th] example_multiSigningData]
  show ?thesis
    by (intro conjI example_signingData q1 example_multiSigningData q2)
qed

text \<open>
  C2. \<open>multiSigningData\<close> returns the four bytes 0x534D5400, then the serialization
  of the transaction with signing fields only (what \<open>serializeObject\<close> gives with that
  option and neither prefix nor suffix), then the bytes of the account as \<open>AccountID\<close>
  gives them, 20 by the spec, with nothing between.
\<close>

theorem multiSigningData_layout:
  assumes "from_width 20 (AccountID (types E))"
  shows "multiSigningData E tx a = Inr bytes \<longleftrightarrow>
     (\<exists>body acc.
        serializeObject E tx \<lparr>prefix = None, suffix = None, signingFieldsOnly = Some True\<rparr> =
          Inr body \<and>
        st_from (AccountID (types E)) a = Inr acc \<and>
        length acc = 20 \<and>
        bytes = [0x53, 0x4D, 0x54, 0x00] @ body @ acc)"
proof
  assume "multiSigningData E tx a = Inr bytes"
  then obtain fs body acc where f: "STObject_fields E tx (Some isSigningField) = Inr fs"
    and e: "emit_fields E fs = Inr body"
    and a: "st_from (AccountID (types E)) a = Inr acc"
    and b: "bytes = HashPrefix_transactionMultiSig @ body @ acc"
    by (auto simp add: multiSigningData_def serializeObject_signing split: sum.splits)
  from f e have "serializeObject E tx
      \<lparr>prefix = None, suffix = None, signingFieldsOnly = Some True\<rparr> = Inr body"
    by (simp add: serializeObject_signing)
  moreover from assms a have "length acc = 20"
    by (auto simp add: from_width_def)
  ultimately show "\<exists>body acc.
        serializeObject E tx \<lparr>prefix = None, suffix = None, signingFieldsOnly = Some True\<rparr> =
          Inr body \<and>
        st_from (AccountID (types E)) a = Inr acc \<and>
        length acc = 20 \<and>
        bytes = [0x53, 0x4D, 0x54, 0x00] @ body @ acc"
    using a b by (auto simp add: HashPrefix_transactionMultiSig_def)
next
  assume "\<exists>body acc.
        serializeObject E tx \<lparr>prefix = None, suffix = None, signingFieldsOnly = Some True\<rparr> =
          Inr body \<and>
        st_from (AccountID (types E)) a = Inr acc \<and>
        length acc = 20 \<and>
        bytes = [0x53, 0x4D, 0x54, 0x00] @ body @ acc"
  then show "multiSigningData E tx a = Inr bytes"
    by (auto simp add: multiSigningData_def serializeObject_signing
        HashPrefix_transactionMultiSig_def)
qed

theorem multiSigningData_layout_witness:
  "from_width 20 (AccountID (types example_env))
   \<and> multiSigningData example_env example_tx example_account =
     Inr ([0x53, 0x4D, 0x54, 0x00] @ [0x24, 0x00, 0x00, 0x00, 0x01, 0x73, 0x00] @ replicate 20 2)
   \<and> (\<exists>body acc.
        serializeObject example_env example_tx
          \<lparr>prefix = None, suffix = None, signingFieldsOnly = Some True\<rparr> = Inr body \<and>
        st_from (AccountID (types example_env)) example_account = Inr acc \<and>
        length acc = 20 \<and>
        [0x53, 0x4D, 0x54, 0x00] @ [0x24, 0x00, 0x00, 0x00, 0x01, 0x73, 0x00] @ replicate 20 2 =
          [0x53, 0x4D, 0x54, 0x00] @ body @ acc)"
proof -
  have h: "from_width 20 (AccountID (types example_env))"
    by (simp add: example_env_def example_types_simps from_width_example_AccountID)
  note q = iffD1 [OF multiSigningData_layout [OF h] example_multiSigningData]
  show ?thesis
    by (intro conjI h example_multiSigningData q)
qed

text \<open>
  C3. \<open>signingClaimData\<close> returns the four bytes 0x434C4D00, then the channel as a
  hash of 32 bytes, then the amount: for an amount that is an object, the bytes that
  \<open>Amount\<close> gives for it, 48 by the spec; for an amount that is a string, the 8 bytes
  that spell, big-endian, the number that \<open>big-integer\<close> reads from the string.
\<close>

theorem signingClaimData_layout:
  assumes "issued_amount_width (Amount (types E))"
  shows "signingClaimData E claim = Inr bytes \<longrightarrow>
     (\<exists>ch am.
        Hash256_from (channel claim) = Inr ch \<and> length ch = 32 \<and>
        bytes = [0x43, 0x4C, 0x4D, 0x00] @ ch @ am \<and>
        (\<forall>entries. amount claim = JObject entries \<longrightarrow>
           st_from (Amount (types E)) (amount claim) = Inr am \<and> length am = 48) \<and>
        (\<forall>s. amount claim = JString s \<longrightarrow>
           (\<exists>n. bigInt E s = Inr n \<and> 0 \<le> n \<and> n < 2 ^ 64 \<and>
                length am = 8 \<and> big_endian am = n)))"
proof
  assume a: "signingClaimData E claim = Inr bytes"
  then obtain ch where ch: "Hash256_from (channel claim) = Inr ch"
    by (auto simp add: signingClaimData_def split: sum.splits)
  then have l: "length ch = 32"
    by (cases "channel claim") (auto split: option.splits if_splits)
  show "\<exists>ch am.
        Hash256_from (channel claim) = Inr ch \<and> length ch = 32 \<and>
        bytes = [0x43, 0x4C, 0x4D, 0x00] @ ch @ am \<and>
        (\<forall>entries. amount claim = JObject entries \<longrightarrow>
           st_from (Amount (types E)) (amount claim) = Inr am \<and> length am = 48) \<and>
        (\<forall>s. amount claim = JString s \<longrightarrow>
           (\<exists>n. bigInt E s = Inr n \<and> 0 \<le> n \<and> n < 2 ^ 64 \<and>
                length am = 8 \<and> big_endian am = n))"
  proof (cases "is_object (amount claim)")
    case True
    with a ch obtain am where am: "st_from (Amount (types E)) (amount claim) = Inr am"
      and b: "bytes = [0x43, 0x4C, 0x4D, 0x00] @ ch @ am"
      by (auto simp add: signingClaimData_def HashPrefix_paymentChannelClaim_def
          BytesList_put_def BytesList_toBytes_def Let_def split: sum.splits)
    from assms am have "\<forall>entries. amount claim = JObject entries \<longrightarrow> length am = 48"
      by (auto simp add: issued_amount_width_def)
    moreover from True have "\<forall>s. amount claim \<noteq> JString s"
      by auto
    ultimately show ?thesis
      using ch l b am by auto
  next
    case False
    with a ch obtain n am where n: "bigInt E (String_of (amount claim)) = Inr n"
      and u: "UInt64_from n = Inr am"
      and b: "bytes = [0x43, 0x4C, 0x4D, 0x00] @ ch @ am"
      by (auto simp add: signingClaimData_def HashPrefix_paymentChannelClaim_def
          BytesList_put_def BytesList_toBytes_def Let_def split: sum.splits)
    from False have "\<forall>entries. amount claim \<noteq> JObject entries"
      by auto
    moreover from n big_endian_UInt64 [OF u]
    have "\<forall>s. amount claim = JString s \<longrightarrow>
           (\<exists>n. bigInt E s = Inr n \<and> 0 \<le> n \<and> n < 2 ^ 64 \<and>
                length am = 8 \<and> big_endian am = n)"
      by auto
    ultimately show ?thesis
      using ch l b by auto
  qed
qed

lemma example_issued_amount_width: "issued_amount_width (Amount (types example_env))"
proof -
  have "length bytes = 48" if "st_from example_Amount v = Inr bytes" for v bytes
  proof -
    from that obtain c i where c: "currency_from (property v ''currency'') = Inr c"
      and i: "hash160_from (property v ''issuer'') = Inr i"
      and b: "bytes = [0x80, 0, 0, 0, 0, 0, 0, 0] @ c @ i"
      by (auto simp add: example_Amount_def split: sum.splits)
    from currency_from_length [OF c] hash160_from_length [OF i] b show ?thesis
      by simp
  qed
  then show ?thesis
    by (simp add: issued_amount_width_def example_env_def example_types_def)
qed

lemma example_signingClaimData:
  "signingClaimData example_env example_claim =
     Inr ([0x43, 0x4C, 0x4D, 0x00] @ replicate 31 0 @ [0xFF] @ [0, 0, 0, 0, 0, 0, 0x03, 0xE8])"
  by code_simp

lemma example_signingClaimData_issued:
  "signingClaimData example_env example_claim_issued =
     Inr ([0x43, 0x4C, 0x4D, 0x00] @ replicate 31 0 @ [0xFF] @
          [0x80, 0, 0, 0, 0, 0, 0, 0] @ replicate 12 0 @ [0x55, 0x53, 0x44] @ replicate 5 0 @
          replicate 20 1)"
  by code_simp

theorem signingClaimData_layout_witness:
  "issued_amount_width (Amount (types example_env))
   \<and> signingClaimData example_env example_claim =
     Inr ([0x43, 0x4C, 0x4D, 0x00] @ replicate 31 0 @ [0xFF] @ [0, 0, 0, 0, 0, 0, 0x03, 0xE8])
   \<and> (\<exists>ch am.
        Hash256_from (channel example_claim) = Inr ch \<and> length ch = 32 \<and>
        [0x43, 0x4C, 0x4D, 0x00] @ replicate 31 0 @ [0xFF] @ [0, 0, 0, 0, 0, 0, 0x03, 0xE8] =
          [0x43, 0x4C, 0x4D, 0x00] @ ch @ am \<and>
        (\<forall>entries. amount example_claim = JObject entries \<longrightarrow>
           st_from (Amount (types example_env)) (amount example_claim) = Inr am \<and>
           length am = 48) \<and>
        (\<forall>s. amount example_claim = JString s \<longrightarrow>
           (\<exists>n. bigInt example_env s = Inr n \<and> 0 \<le> n \<and> n < 2 ^ 64 \<and>
                length am = 8 \<and> big_endian am = n)))
   \<and> signingClaimData example_env example_claim_issued =
     Inr ([0x43, 0x4C, 0x4D, 0x00] @ replicate 31 0 @ [0xFF] @
          [0x80, 0, 0, 0, 0, 0, 0, 0] @ replicate 12 0 @ [0x55, 0x53, 0x44] @ replicate 5 0 @
          replicate 20 1)
   \<and> (\<exists>ch am.
        Hash256_from (channel example_claim_issued) = Inr ch \<and> length ch = 32 \<and>
        [0x43, 0x4C, 0x4D, 0x00] @ replicate 31 0 @ [0xFF] @
          [0x80, 0, 0, 0, 0, 0, 0, 0] @ replicate 12 0 @ [0x55, 0x53, 0x44] @ replicate 5 0 @
          replicate 20 1 =
          [0x43, 0x4C, 0x4D, 0x00] @ ch @ am \<and>
        (\<forall>entries. amount example_claim_issued = JObject entries \<longrightarrow>
           st_from (Amount (types example_env)) (amount example_claim_issued) = Inr am \<and>
           length am = 48) \<and>
        (\<forall>s. amount example_claim_issued = JString s \<longrightarrow>
           (\<exists>n. bigInt example_env s = Inr n \<and> 0 \<le> n \<and> n < 2 ^ 64 \<and>
                length am = 8 \<and> big_endian am = n)))"
proof -
  note h = example_issued_amount_width
  note q1 = mp [OF signingClaimData_layout [OF h] example_signingClaimData]
  note q2 = mp [OF signingClaimData_layout [OF h] example_signingClaimData_issued]
  show ?thesis
    by (intro conjI h example_signingClaimData q1 example_signingClaimData_issued q2)
qed

end
